theory Spec2Isabelle
  imports Main "HOL-Library.Monad_Syntax"
begin

section \<open>Data model of cmd/timetracking/api.go\<close>

text \<open>
  A \<open>time.Time\<close> is used by this code only through its calendar day: \<open>AddDate(0, 0, -1)\<close>
  steps to the previous day, \<open>Weekday()\<close> and \<open>Format\<close> read the day. It is modelled by the
  number of the day, counted from 1970-01-01 (day 0, a Thursday) and unbounded in both
  directions; the time of day and the location are left out.
\<close>

type_synonym date = int

text \<open>\<open>time.Weekday\<close>: Sunday is 0.\<close>

datatype weekday = Sunday | Monday | Tuesday | Wednesday | Thursday | Friday | Saturday

definition weekdays :: "weekday list" where
  "weekdays = [Sunday, Monday, Tuesday, Wednesday, Thursday, Friday, Saturday]"

definition Weekday :: "date \<Rightarrow> weekday" where
  "Weekday d = weekdays ! nat ((d + 4) mod 7)"

text \<open>\<open>Weekday.String()\<close>.\<close>

fun String :: "weekday \<Rightarrow> string" where
  "String Sunday = ''Sunday''"
| "String Monday = ''Monday''"
| "String Tuesday = ''Tuesday''"
| "String Wednesday = ''Wednesday''"
| "String Thursday = ''Thursday''"
| "String Friday = ''Friday''"
| "String Saturday = ''Saturday''"

definition AddDate :: "date \<Rightarrow> int \<Rightarrow> date" where
  "AddDate d days = d + days"

text \<open>
  Every error value the code builds or passes on. \<open>ParseError\<close> is the error of
  \<open>time.Parse\<close> and of \<open>strconv.Atoi\<close>, \<open>RemoteError\<close> an error of one of the two
  remote clients.
\<close>

datatype error =
    ParseError string
  | InvalidWeekday string
  | EveryDayOff
  | InvalidGroup string
  | RemoteError string
  | NoForecastUser
  | ProjectNotFound string
  | AccountIdNotNumeric
  | ForecastAccountIdNotNumeric

text \<open>Run-time panics of the Go runtime that this code can reach.\<close>

datatype panic = NilPointerDereference | MakesliceCapOutOfRange

text \<open>
  The functions of Go's standard library that the code calls and that are not arithmetic
  on the day number: \<open>strings.ToLower\<close>, \<open>strconv.Atoi\<close>, \<open>time.Parse\<close>, \<open>Time.Format\<close>
  (both with the layout first) and \<open>Time.ISOWeek\<close>. They are parameters of the model.
\<close>

record stdlib =
  ToLower :: "string \<Rightarrow> string"
  Atoi :: "string \<Rightarrow> error + int"
  Parse :: "string \<Rightarrow> string \<Rightarrow> error + date"
  Format :: "string \<Rightarrow> date \<Rightarrow> string"
  ISOWeek :: "date \<Rightarrow> int \<times> int"

definition dateFormat :: string where
  "dateFormat = ''2006-01-02''"

text \<open>
  \<open>Config\<close>: the two maps to \<open>struct{}\<close> are sets of keys. The credentials play no part in
  the functions modelled below but are fields of the struct.
\<close>

record Config =
  AccountID :: string
  ForecastAccountID :: string
  Token :: string
  WeekdaysOff :: "string list"
  ExcludedDates :: "string list"
  excludedMap :: "string set"
  weekdaysOffMap :: "weekday set"

section \<open>Config.Validate\<close>

text \<open>
  The first loop of \<open>Validate\<close>: the string is stored before it is parsed, and the first
  parse error ends the function.
\<close>

fun excluded_loop :: "stdlib \<Rightarrow> string list \<Rightarrow> string set \<Rightarrow> string set \<times> error option" where
  "excluded_loop L [] m = (m, None)"
| "excluded_loop L (v # vs) m =
     (let m' = insert v m in
      case Parse L dateFormat v of
        Inl err \<Rightarrow> (m', Some err)
      | Inr _ \<Rightarrow> excluded_loop L vs m')"

text \<open>
  The map literal \<open>wds\<close>: its keys are computed, so a later entry with the key of an
  earlier one replaces it; \<open>map_of\<close> takes the first pair, hence the reversal.
\<close>

definition wds :: "stdlib \<Rightarrow> string \<rightharpoonup> weekday" where
  "wds L = map_of (rev (map (\<lambda>w. (ToLower L (String w), w))
             [Monday, Tuesday, Wednesday, Thursday, Friday, Saturday, Sunday]))"

fun weekdays_loop :: "stdlib \<Rightarrow> string list \<Rightarrow> weekday set \<Rightarrow> weekday set \<times> error option" where
  "weekdays_loop L [] m = (m, None)"
| "weekdays_loop L (v # vs) m =
     (case wds L (ToLower L v) of
        None \<Rightarrow> (m, Some (InvalidWeekday v))
      | Some wd \<Rightarrow> weekdays_loop L vs (insert wd m))"

text \<open>
  \<open>Validate\<close> has a pointer receiver: it returns the error (\<open>None\<close> is \<open>nil\<close>) and the
  configuration as it has left it.
\<close>

definition Validate :: "stdlib \<Rightarrow> Config \<Rightarrow> error option \<times> Config" where
  "Validate L c =
     (case excluded_loop L (ExcludedDates c) {} of
        (em, Some err) \<Rightarrow> (Some err, c\<lparr>excludedMap := em\<rparr>)
      | (em, None) \<Rightarrow>
          (case weekdays_loop L (WeekdaysOff c) {} of
             (wm, Some err) \<Rightarrow> (Some err, c\<lparr>excludedMap := em, weekdaysOffMap := wm\<rparr>)
           | (wm, None) \<Rightarrow>
               (if card wm > 6
                then (Some EveryDayOff, c\<lparr>excludedMap := em, weekdaysOffMap := wm\<rparr>)
                else (None, c\<lparr>excludedMap := em, weekdaysOffMap := wm\<rparr>))))"

definition Excluded :: "stdlib \<Rightarrow> Config \<Rightarrow> date \<Rightarrow> bool" where
  "Excluded L c t = (Format L dateFormat t \<in> excludedMap c)"

definition Off :: "Config \<Rightarrow> date \<Rightarrow> bool" where
  "Off c t = (Weekday t \<in> weekdaysOffMap c)"

definition AmountOff :: "Config \<Rightarrow> int" where
  "AmountOff c = int (card (weekdaysOffMap c))"

definition WorkWeek :: "Config \<Rightarrow> int" where
  "WorkWeek c = 7 - int (card (weekdaysOffMap c))"

section \<open>The calendar policy\<close>

text \<open>
  The condition of the loop \<open>for t.conf.Excluded(d) || t.conf.Off(d)\<close>, which the
  specification calls \<open>IsNonWorkday\<close>.
\<close>

definition IsNonWorkday :: "stdlib \<Rightarrow> Config \<Rightarrow> date \<Rightarrow> bool" where
  "IsNonWorkday L c d = (Excluded L c d \<or> Off c d)"

text \<open>
  The loop itself, written three times in the source (in the placeholder walk, in the
  scan of a page and in the grouping callback); the specification calls it
  \<open>ShiftToWorkday\<close>. Nothing bounds it in the code, so the model is a partial function:
  \<open>None\<close> stands for a loop that never ends.
\<close>

partial_function (option) ShiftToWorkday :: "stdlib \<Rightarrow> Config \<Rightarrow> date \<Rightarrow> date option" where
  "ShiftToWorkday L c d =
     (if Excluded L c d \<or> Off c d then ShiftToWorkday L c (AddDate d (-1)) else Some d)"

declare ShiftToWorkday.simps [code]

section \<open>The remote services and the session\<close>

text \<open>
  The packages \<open>harvest\<close> and \<open>forecast\<close> are clients of two remote services. Of their
  types the model keeps the fields that \<open>api.go\<close> reads or writes; a pointer that may be
  \<open>nil\<close> is an \<open>option\<close>. \<open>Hours\<close> is a duration (\<open>DurationHours\<close>), here a whole number of its unit.
  The identifier of a \<open>forecast.User\<close> is \<open>ForecastUserID\<close>, that of a \<open>forecast.Me\<close> is
  \<open>MeID\<close> and that of a project is \<open>ProjectID\<close>, since a field name is global in HOL.
\<close>

record User =
  ID :: int

record TimeEntry =
  Hours :: int
  SpentDate :: "date option"

record TimeEntriesParams =
  UserID :: "int option"
  To :: "date option"
  Page :: "int option"

record TimeEntriesResponse =
  TimeEntries :: "TimeEntry list"
  NextPage :: "int option"

record ForecastUser =
  ForecastUserID :: int

record Me =
  MeID :: int

record Project =
  ProjectID :: int
  Name :: string

record Assignment =
  AssignmentID :: int

record AssignmentsParams =
  ParamProjectID :: "int option"
  PersonID :: "int option"

text \<open>
  A client is the answers of its service. A call returns a value and an error in Go; the
  value is taken to be \<open>nil\<close> whenever the error is not, as is the convention, so that
  an answer is either the error or the value.
\<close>

record Harvest =
  GetMe :: "error + User"
  GetUser :: "int \<Rightarrow> error + User"
  GetTimeEntries :: "TimeEntriesParams \<Rightarrow> error + TimeEntriesResponse"

record Forecast =
  ForecastGetMe :: "error + Me"
  ForecastGetUser :: "int \<Rightarrow> error + ForecastUser"
  GetProjects :: "error + Project list"
  GetAssignments :: "AssignmentsParams \<Rightarrow> error + Assignment list"

text \<open>\<open>Timetracking\<close>, without its logger.\<close>

record Timetracking =
  conf :: Config
  harvest :: Harvest
  forecast :: Forecast
  user :: "User option"
  forecastUser :: "ForecastUser option"

text \<open>What a call does when it comes back: it returns, or the runtime panics.\<close>

datatype 'a outcome = Returns 'a | Panics panic


definition SetForecastUID :: "Timetracking \<Rightarrow> int \<Rightarrow> error option \<times> Timetracking" where
  "SetForecastUID t uid =
     (let t0 = t\<lparr>forecastUser := None\<rparr> in
      case (if uid = 0 then map_sum id MeID (ForecastGetMe (forecast t0)) else Inr uid) of
        Inl err \<Rightarrow> (Some err, t0)
      | Inr uid' \<Rightarrow>
          (case ForecastGetUser (forecast t0) uid' of
             Inl err \<Rightarrow> (Some err, t0)
           | Inr u \<Rightarrow> (None, t0\<lparr>forecastUser := Some u\<rparr>)))"

section \<open>GetRecentDays\<close>

text \<open>The entry appended for a day without tracked time.\<close>

definition placeholder :: "date \<Rightarrow> TimeEntry" where
  "placeholder d = \<lparr>Hours = 0, SpentDate = Some d\<rparr>"

text \<open>
  The loop under \<open>if actualDays\<close>. The counter is the set of keys of the map \<open>counter\<close>,
  \<open>len(counter)\<close> its cardinality. The only exit is \<open>len(counter) == amount\<close>, tested after
  a day has been added.
\<close>

partial_function (option) placeholder_loop ::
  "stdlib \<Rightarrow> Config \<Rightarrow> int \<Rightarrow> date \<Rightarrow> string set \<Rightarrow> TimeEntry list
     \<Rightarrow> (string set \<times> TimeEntry list) option" where
  "placeholder_loop L c amount d counter entries =
     ShiftToWorkday L c d \<bind> (\<lambda>d1.
       let counter' = insert (Format L dateFormat d1) counter;
           entries' = entries @ [placeholder d1]
       in if int (card counter') = amount then Some (counter', entries')
          else placeholder_loop L c amount (AddDate d1 (-1)) counter' entries')"

declare placeholder_loop.simps [code]

text \<open>
  The loop over the entries of one page. The flag of the result says that
  \<open>break outer\<close> was taken.
\<close>

fun scan_entries ::
  "stdlib \<Rightarrow> Config \<Rightarrow> int \<Rightarrow> TimeEntry list \<Rightarrow> string set \<Rightarrow> TimeEntry list
     \<Rightarrow> (bool \<times> string set \<times> TimeEntry list) option" where
  "scan_entries L c amount [] counter entries = Some (False, counter, entries)"
| "scan_entries L c amount (e # es) counter entries =
     (case SpentDate e of
        None \<Rightarrow> scan_entries L c amount es counter entries
      | Some d0 \<Rightarrow>
          ShiftToWorkday L c d0 \<bind> (\<lambda>d.
            let df = Format L dateFormat d in
            if df \<notin> counter \<and> int (card counter) = amount
            then Some (True, counter, entries)
            else scan_entries L c amount es (insert df counter) (entries @ [e])))"

text \<open>
  The loop \<open>outer\<close> over the pages. The last argument is the list of the requests made
  to the remote service so far, which is returned with the three results of the function.
\<close>

partial_function (option) pages_loop ::
  "stdlib \<Rightarrow> Timetracking \<Rightarrow> int \<Rightarrow> TimeEntriesParams \<Rightarrow> string set \<Rightarrow> TimeEntry list
     \<Rightarrow> TimeEntriesParams list
     \<Rightarrow> (TimeEntriesParams list \<times> int \<times> TimeEntry list \<times> error option) option" where
  "pages_loop L t amount params counter entries reqs =
     (case GetTimeEntries (harvest t) params of
        Inl err \<Rightarrow> Some (reqs @ [params], 0, [], Some err)
      | Inr res \<Rightarrow>
          scan_entries L (conf t) amount (TimeEntries res) counter entries \<bind>
            (\<lambda>(brk, counter', entries').
               if brk then Some (reqs @ [params], int (card counter'), entries', None)
               else (case NextPage res of
                       None \<Rightarrow> Some (reqs @ [params], int (card counter'), entries', None)
                     | Some p \<Rightarrow>
                         pages_loop L t amount (params\<lparr>Page := Some p\<rparr>) counter' entries'
                           (reqs @ [params]))))"

declare pages_loop.simps [code]

text \<open>
  \<open>GetRecentDays\<close>. \<open>&t.User().ID\<close> dereferences \<open>t.user\<close>, and \<open>make\<close> with a negative
  capacity panics; both come before the first loop. \<open>None\<close> is a call that does not come
  back.
\<close>

definition GetRecentDays ::
  "stdlib \<Rightarrow> Timetracking \<Rightarrow> int \<Rightarrow> date \<Rightarrow> bool
     \<Rightarrow> (TimeEntriesParams list \<times> (int \<times> TimeEntry list \<times> error option) outcome) option" where
  "GetRecentDays L t amount from actualDays =
     (case user t of
        None \<Rightarrow> Some ([], Panics NilPointerDereference)
      | Some u \<Rightarrow>
          if amount < 0 then Some ([], Panics MakesliceCapOutOfRange)
          else
            (if actualDays then placeholder_loop L (conf t) amount from {} []
             else Some ({}, [])) \<bind> (\<lambda>(counter, entries).
            pages_loop L t amount \<lparr>UserID = Some (ID u), To = Some from, Page = None\<rparr>
              counter entries [] \<bind> (\<lambda>(reqs, r). Some (reqs, Returns r))))"

text \<open>
  A remote service on which the walk over the pages comes to an end without an error:
  the request is answered with a page, and either the page names no next page or the
  same holds of the request for the page it names.
\<close>

inductive pages_end :: "Harvest \<Rightarrow> TimeEntriesParams \<Rightarrow> bool" where
  last_page:
    "GetTimeEntries h params = Inr res \<Longrightarrow> NextPage res = None \<Longrightarrow> pages_end h params"
| next_page:
    "GetTimeEntries h params = Inr res \<Longrightarrow> NextPage res = Some p
       \<Longrightarrow> pages_end h (params\<lparr>Page := Some p\<rparr>) \<Longrightarrow> pages_end h params"

section \<open>GetRecentDaysGrouped\<close>

text \<open>
  Modelled from the spec: the constants \<open>groupByDay\<close>, \<open>groupByWeek\<close>, \<open>groupByMonth\<close> and
  \<open>groupByYear\<close> are declared in a file of the package that is not among the sources; the
  granularities are named day, week, month and year.
\<close>

definition groupByDay :: string where "groupByDay = ''day''"
definition groupByWeek :: string where "groupByWeek = ''week''"
definition groupByMonth :: string where "groupByMonth = ''month''"
definition groupByYear :: string where "groupByYear = ''year''"

text \<open>
  The \<open>switch\<close> at the head of \<open>GetRecentDaysGrouped\<close>: the layout of the group key, or
  \<open>None\<close> in the \<open>default\<close> case.
\<close>

definition groupFormat :: "string \<Rightarrow> string option" where
  "groupFormat groupBy =
     (if groupBy = groupByDay then Some ''2006-01-02''
      else if groupBy = groupByWeek then Some ''2006-01-02''
      else if groupBy = groupByMonth then Some ''2006-01''
      else if groupBy = groupByYear then Some ''2006''
      else None)"

text \<open>The verb \<open>%d\<close> of \<open>fmt.Sprintf\<close>: a decimal numeral, with a sign when negative.\<close>

fun digits :: "nat \<Rightarrow> string" where
  "digits n =
     (if n < 10 then [char_of (48 + n)] else digits (n div 10) @ [char_of (48 + n mod 10)])"

definition Sprintf_d :: "int \<Rightarrow> string" where
  "Sprintf_d i = (if i < 0 then CHR ''-'' # digits (nat (- i)) else digits (nat i))"

text \<open>
  The function literal passed to \<open>Group\<close>. It writes the shifted date into the entry it is
  given, so it returns the entry as well as the key and the flag.
\<close>

definition group_key ::
  "stdlib \<Rightarrow> Config \<Rightarrow> string \<Rightarrow> string \<Rightarrow> TimeEntry \<Rightarrow> (TimeEntry \<times> string \<times> bool) option" where
  "group_key L c groupBy layout e =
     (case SpentDate e of
        None \<Rightarrow> Some (e, [], False)
      | Some d0 \<Rightarrow>
          ShiftToWorkday L c d0 \<bind> (\<lambda>d.
            let e' = e\<lparr>SpentDate := Some d\<rparr> in
            if groupBy = groupByWeek
            then (case ISOWeek L d of
                    (y, w) \<Rightarrow> Some (e', Sprintf_d y @ ''|'' @ Sprintf_d w, True))
            else Some (e', Format L layout d, True)))"

text \<open>
  Modelled from the spec: \<open>harvest.TimeEntries.Group\<close> and the type \<open>harvest.Grouped\<close> are
  in a package that is not among the sources. A grouped result maps a key to the entries
  whose shifted date gave that key: the entries are passed to the callback in their
  order, an entry for which the callback answers \<open>false\<close> is left out, any other is
  appended to the bucket of its key.
\<close>

type_synonym Grouped = "(string \<times> TimeEntry list) list"

fun add_to_bucket :: "string \<Rightarrow> TimeEntry \<Rightarrow> Grouped \<Rightarrow> Grouped" where
  "add_to_bucket k e [] = [(k, [e])]"
| "add_to_bucket k e ((k', es) # g) =
     (if k = k' then (k', es @ [e]) # g else (k', es) # add_to_bucket k e g)"

fun Group ::
  "(TimeEntry \<Rightarrow> (TimeEntry \<times> string \<times> bool) option) \<Rightarrow> TimeEntry list \<Rightarrow> Grouped
     \<Rightarrow> Grouped option" where
  "Group f [] g = Some g"
| "Group f (e # es) g =
     f e \<bind> (\<lambda>(e', k, ok). if ok then Group f es (add_to_bucket k e' g) else Group f es g)"

text \<open>\<open>GetRecentDaysGrouped\<close>; a \<open>nil\<close> grouping is \<open>None\<close>.\<close>

definition GetRecentDaysGrouped ::
  "stdlib \<Rightarrow> Timetracking \<Rightarrow> int \<Rightarrow> date \<Rightarrow> bool \<Rightarrow> string
     \<Rightarrow> (TimeEntriesParams list \<times> (int \<times> Grouped option \<times> error option) outcome) option" where
  "GetRecentDaysGrouped L t amount from actualDays groupBy =
     (case groupFormat groupBy of
        None \<Rightarrow> Some ([], Returns (0, None, Some (InvalidGroup groupBy)))
      | Some layout \<Rightarrow>
          GetRecentDays L t amount from actualDays \<bind> (\<lambda>(reqs, oc).
            case oc of
              Panics p \<Rightarrow> Some (reqs, Panics p)
            | Returns (days, entries, Some err) \<Rightarrow> Some (reqs, Returns (0, None, Some err))
            | Returns (days, entries, None) \<Rightarrow>
                Group (group_key L (conf t) groupBy layout) entries [] \<bind> (\<lambda>group.
                  Some (reqs, Returns (days, Some group, None)))))"

section \<open>New and GetAssignmentsByName\<close>


text \<open>The loop over the projects: every project with the name overwrites \<open>id\<close>
  (\<open>pid\<close> here).\<close>

fun find_project :: "string \<Rightarrow> Project list \<Rightarrow> int \<Rightarrow> int" where
  "find_project projectName [] pid = pid"
| "find_project projectName (p # ps) pid =
     find_project projectName ps (if Name p = projectName then ProjectID p else pid)"

definition GetAssignmentsByName :: "Timetracking \<Rightarrow> string \<Rightarrow> error + Assignment list" where
  "GetAssignmentsByName t projectName =
     (case forecastUser t of
        None \<Rightarrow> Inl NoForecastUser
      | Some fu \<Rightarrow>
          if ForecastUserID fu = 0 then Inl NoForecastUser
          else
            (case GetProjects (forecast t) of
               Inl err \<Rightarrow> Inl err
             | Inr ps \<Rightarrow>
                 (let pid = find_project projectName ps 0 in
                  if pid = 0 then Inl (ProjectNotFound projectName)
                  else GetAssignments (forecast t)
                         \<lparr>ParamProjectID = Some pid, PersonID = Some (ForecastUserID fu)\<rparr>)))"

section \<open>The standard library on the Gregorian calendar\<close>

text \<open>
  An instance of \<open>stdlib\<close> for running the model: the functions of Go's standard library
  as far as this code uses them, that is on ASCII strings, on the layouts
  \<open>2006-01-02\<close>, \<open>2006-01\<close> and \<open>2006\<close>, and on the proleptic Gregorian calendar.
\<close>

definition lower_char :: "char \<Rightarrow> char" where
  "lower_char ch =
     (let n = (of_char ch :: nat) in if 65 \<le> n \<and> n \<le> 90 then char_of (n + 32) else ch)"

definition strings_ToLower :: "string \<Rightarrow> string" where
  "strings_ToLower s = map lower_char s"

definition is_digit :: "char \<Rightarrow> bool" where
  "is_digit ch = (48 \<le> (of_char ch :: nat) \<and> (of_char ch :: nat) \<le> 57)"

definition parse_nat :: "string \<Rightarrow> nat" where
  "parse_nat s = foldl (\<lambda>a ch. 10 * a + (of_char ch - 48)) 0 s"

definition strconv_Atoi :: "string \<Rightarrow> error + int" where
  "strconv_Atoi s =
     (let neg = (s \<noteq> [] \<and> hd s = CHR ''-'');
          ds = (if s \<noteq> [] \<and> (hd s = CHR ''-'' \<or> hd s = CHR ''+'') then tl s else s);
          v = (if neg then - int (parse_nat ds) else int (parse_nat ds))
      in if ds = [] \<or> \<not> list_all is_digit ds \<or> v < - (2 ^ 63) \<or> 2 ^ 63 \<le> v
         then Inl (ParseError s) else Inr v)"

definition is_leap :: "int \<Rightarrow> bool" where
  "is_leap y = (y mod 4 = 0 \<and> (y mod 100 \<noteq> 0 \<or> y mod 400 = 0))"

text \<open>The days of the year before the first of month \<open>m\<close>.\<close>

definition days_before_month :: "bool \<Rightarrow> int \<Rightarrow> int" where
  "days_before_month leap m =
     (if m \<le> 1 then 0 else if m = 2 then 31
      else (if leap then 1 else 0) +
        (if m = 3 then 59 else if m = 4 then 90 else if m = 5 then 120
         else if m = 6 then 151 else if m = 7 then 181 else if m = 8 then 212
         else if m = 9 then 243 else if m = 10 then 273 else if m = 11 then 304
         else 334))"

definition days_in_month :: "bool \<Rightarrow> int \<Rightarrow> int" where
  "days_in_month leap m =
     (if m = 2 then (if leap then 29 else 28)
      else if m = 4 \<or> m = 6 \<or> m = 9 \<or> m = 11 then 30 else 31)"

text \<open>The days from 0001-01-01 to the first of January of year \<open>y\<close>.\<close>

definition days_before_year :: "int \<Rightarrow> int" where
  "days_before_year y = 365 * (y - 1) + (y - 1) div 4 - (y - 1) div 100 + (y - 1) div 400"

text \<open>The number of a day given by year, month and day; 1970-01-01 is day 0.\<close>

definition days_from_civil :: "int \<times> int \<times> int \<Rightarrow> date" where
  "days_from_civil ymd =
     (case ymd of (y, m, d) \<Rightarrow>
        days_before_year y + days_before_month (is_leap y) m + (d - 1) - 719162)"

definition month_day :: "bool \<Rightarrow> int \<Rightarrow> int \<times> int" where
  "month_day leap yday =
     (let m = (if yday < days_before_month leap 2 then 1
               else if yday < days_before_month leap 3 then 2
               else if yday < days_before_month leap 4 then 3
               else if yday < days_before_month leap 5 then 4
               else if yday < days_before_month leap 6 then 5
               else if yday < days_before_month leap 7 then 6
               else if yday < days_before_month leap 8 then 7
               else if yday < days_before_month leap 9 then 8
               else if yday < days_before_month leap 10 then 9
               else if yday < days_before_month leap 11 then 10
               else if yday < days_before_month leap 12 then 11
               else 12)
      in (m, yday - days_before_month leap m + 1))"

text \<open>
  Year, month and day of a day number, by cycles of 400, 100, 4 and 1 years; the last
  year of a cycle of 4 and the last cycle of 100 are one day longer, hence the \<open>min\<close>.
\<close>

definition civil_from_days :: "date \<Rightarrow> int \<times> int \<times> int" where
  "civil_from_days z =
     (let a = z + 719162;
          n400 = a div 146097;
          r0 = a mod 146097;
          n100 = min 3 (r0 div 36524);
          r1 = r0 - 36524 * n100;
          n4 = r1 div 1461;
          r2 = r1 mod 1461;
          n1 = min 3 (r2 div 365);
          yday = r2 - 365 * n1;
          y = 400 * n400 + 100 * n100 + 4 * n4 + n1 + 1
      in case month_day (is_leap y) yday of (m, d) \<Rightarrow> (y, m, d))"

definition zero_pad :: "nat \<Rightarrow> string \<Rightarrow> string" where
  "zero_pad w s = replicate (w - length s) CHR ''0'' @ s"

definition format_year :: "int \<Rightarrow> string" where
  "format_year y =
     (if y < 0 then CHR ''-'' # zero_pad 4 (digits (nat (- y))) else zero_pad 4 (digits (nat y)))"

definition format_2 :: "int \<Rightarrow> string" where
  "format_2 n = zero_pad 2 (digits (nat n))"

definition Time_Format :: "string \<Rightarrow> date \<Rightarrow> string" where
  "Time_Format layout t =
     (case civil_from_days t of (y, m, d) \<Rightarrow>
        if layout = ''2006-01-02''
        then format_year y @ CHR ''-'' # format_2 m @ CHR ''-'' # format_2 d
        else if layout = ''2006-01'' then format_year y @ CHR ''-'' # format_2 m
        else if layout = ''2006'' then format_year y
        else layout)"

definition time_Parse :: "string \<Rightarrow> string \<Rightarrow> error + date" where
  "time_Parse layout v =
     (if layout = ''2006-01-02'' \<and> length v = 10
         \<and> list_all is_digit (take 4 v) \<and> v ! 4 = CHR ''-''
         \<and> list_all is_digit (take 2 (drop 5 v)) \<and> v ! 7 = CHR ''-''
         \<and> list_all is_digit (drop 8 v)
      then
        (let y = int (parse_nat (take 4 v));
             m = int (parse_nat (take 2 (drop 5 v)));
             d = int (parse_nat (drop 8 v))
         in if 1 \<le> m \<and> m \<le> 12 \<and> 1 \<le> d \<and> d \<le> days_in_month (is_leap y) m
            then Inr (days_from_civil (y, m, d)) else Inl (ParseError v))
      else Inl (ParseError v))"

text \<open>The ISO week of a day is the week of the year that holds the Thursday of its week.\<close>

definition Time_ISOWeek :: "date \<Rightarrow> int \<times> int" where
  "Time_ISOWeek t =
     (let thursday = t - (t + 3) mod 7 + 3;
          y = fst (civil_from_days thursday)
      in (y, (thursday - days_from_civil (y, 1, 1)) div 7 + 1))"

definition golib :: stdlib where
  "golib = \<lparr>ToLower = strings_ToLower, Atoi = strconv_Atoi, Parse = time_Parse,
            Format = Time_Format, ISOWeek = Time_ISOWeek\<rparr>"

section \<open>A session to run the model on\<close>

text \<open>
  The configuration of the README with a weekend: Saturday and Sunday are off and
  2018-11-01 is excluded. \<open>validated_config\<close> is what \<open>Validate\<close> makes of it.
\<close>

definition example_config :: Config where
  "example_config =
     \<lparr>AccountID = ''654321'', ForecastAccountID = [], Token = ''abc-token-lala'',
      WeekdaysOff = [''Saturday'', ''SUNDAY''], ExcludedDates = [''2018-11-01''],
      excludedMap = {}, weekdaysOffMap = {}\<rparr>"

definition validated_config :: Config where
  "validated_config =
     example_config\<lparr>excludedMap := {''2018-11-01''}, weekdaysOffMap := {Saturday, Sunday}\<rparr>"

text \<open>
  A time-tracking service with two pages. Day 17859 is Saturday 2018-11-24, 17858 the
  Friday before it, 17857 the Thursday; the third entry of the first page has no date.
\<close>

definition example_harvest :: Harvest where
  "example_harvest =
     \<lparr>GetMe = Inr \<lparr>ID = 123456\<rparr>,
      GetUser = (\<lambda>uid. Inr \<lparr>ID = uid\<rparr>),
      GetTimeEntries = (\<lambda>params.
        if Page params = None then
          Inr \<lparr>TimeEntries = [\<lparr>Hours = 2, SpentDate = Some 17859\<rparr>,
                               \<lparr>Hours = 6, SpentDate = Some 17858\<rparr>,
                               \<lparr>Hours = 1, SpentDate = None\<rparr>],
               NextPage = Some 2\<rparr>
        else if Page params = Some 2 then
          Inr \<lparr>TimeEntries = [\<lparr>Hours = 10, SpentDate = Some 17857\<rparr>], NextPage = None\<rparr>
        else Inl (RemoteError ''no such page''))\<rparr>"


text \<open>
  A scheduling service with two projects named \<open>website\<close> and one named \<open>intranet\<close> whose
  identifier is 0.
\<close>

definition example_forecast :: Forecast where
  "example_forecast =
     \<lparr>ForecastGetMe = Inr \<lparr>MeID = 77\<rparr>,
      ForecastGetUser = (\<lambda>uid. Inr \<lparr>ForecastUserID = uid\<rparr>),
      GetProjects = Inr [\<lparr>ProjectID = 11, Name = ''website''\<rparr>,
                         \<lparr>ProjectID = 12, Name = ''app''\<rparr>,
                         \<lparr>ProjectID = 13, Name = ''website''\<rparr>,
                         \<lparr>ProjectID = 0, Name = ''intranet''\<rparr>],
      GetAssignments = (\<lambda>params.
        case ParamProjectID params of
          None \<Rightarrow> Inr []
        | Some pid \<Rightarrow> Inr [\<lparr>AssignmentID = 100 * pid\<rparr>])\<rparr>"

definition example_session :: Timetracking where
  "example_session =
     \<lparr>conf = validated_config, harvest = example_harvest, forecast = example_forecast,
      user = Some \<lparr>ID = 123456\<rparr>, forecastUser = Some \<lparr>ForecastUserID = 77\<rparr>\<rparr>"

text \<open>The same session before any call of \<open>SetUID\<close> has succeeded.\<close>

definition fresh_session :: Timetracking where
  "fresh_session = example_session\<lparr>user := None, forecastUser := None\<rparr>"

section \<open>Weekdays\<close>

declare digits.simps [simp del]

lemma UNIV_weekday: "(UNIV :: weekday set) = set weekdays"
proof -
  have "w \<in> set weekdays" for w by (cases w) (simp_all add: weekdays_def)
  then show ?thesis by auto
qed

lemma card_UNIV_weekday: "card (UNIV :: weekday set) = 7"
  by (simp add: UNIV_weekday weekdays_def)

lemma finite_weekday_set: "finite (S :: weekday set)"
  by (rule finite_subset [OF subset_UNIV]) (simp add: UNIV_weekday)

lemma weekday_left: "card (S :: weekday set) \<le> 6 \<Longrightarrow> \<exists>w. w \<notin> S"
proof (rule ccontr)
  assume c: "card S \<le> 6" and "\<nexists>w. w \<notin> S"
  then have "S = UNIV" by auto
  with c show False by (simp add: card_UNIV_weekday)
qed

lemma Weekday_shift7: "Weekday (d - 7 * k) = Weekday d"
proof -
  have "(d - 7 * k + 4) mod 7 = (d + 4) mod 7" by presburger
  then show ?thesis by (simp add: Weekday_def)
qed

lemma Weekday_onto: "\<exists>d. Weekday d = w"
proof (cases w)
  case Sunday then show ?thesis by (intro exI [of _ 3]) (simp add: Weekday_def weekdays_def)
next
  case Monday then show ?thesis by (intro exI [of _ 4]) (simp add: Weekday_def weekdays_def)
next
  case Tuesday then show ?thesis by (intro exI [of _ 5]) (simp add: Weekday_def weekdays_def)
next
  case Wednesday then show ?thesis by (intro exI [of _ 6]) (simp add: Weekday_def weekdays_def)
next
  case Thursday then show ?thesis by (intro exI [of _ 0]) (simp add: Weekday_def weekdays_def)
next
  case Friday then show ?thesis by (intro exI [of _ 1]) (simp add: Weekday_def weekdays_def)
next
  case Saturday then show ?thesis by (intro exI [of _ 2]) (simp add: Weekday_def weekdays_def)
qed

lemma Weekday_below: "\<exists>d \<le> lo. Weekday d = w"
proof -
  obtain d0 where d0: "Weekday d0 = w" using Weekday_onto by blast
  define k where "k = max 0 (d0 - lo)"
  have "d0 - 7 * k \<le> lo" unfolding k_def by (simp add: max_def)
  moreover have "Weekday (d0 - 7 * k) = w" using d0 by (simp add: Weekday_shift7)
  ultimately show ?thesis by blast
qed

section \<open>The backward shift\<close>

lemma workday_below:
  assumes fin: "finite {d. Excluded L c d}" and w: "w \<notin> weekdaysOffMap c"
  shows "\<exists>d0 \<le> d. \<not> IsNonWorkday L c d0"
proof -
  define E where "E = {d. Excluded L c d}"
  define lo where "lo = (if E = {} then d else min d (Min E - 1))"
  obtain d0 where d0: "d0 \<le> lo" "Weekday d0 = w" using Weekday_below by blast
  have "d0 \<le> d" using d0 by (simp add: lo_def split: if_splits)
  moreover have "d0 \<notin> E"
  proof
    assume m: "d0 \<in> E"
    then have "Min E \<le> d0" using fin by (simp add: E_def)
    with d0 m show False by (auto simp: lo_def split: if_splits)
  qed
  ultimately show ?thesis using d0 w by (auto simp: IsNonWorkday_def Off_def E_def)
qed

lemma ShiftToWorkday_terminates:
  assumes "\<not> IsNonWorkday L c d0" "d0 \<le> d"
  shows "\<exists>d'. ShiftToWorkday L c d = Some d' \<and> d0 \<le> d' \<and> d' \<le> d \<and> \<not> IsNonWorkday L c d'"
  using assms
proof (induction "nat (d - d0)" arbitrary: d)
  case 0
  then have "d = d0" by simp
  with 0 show ?case by (subst ShiftToWorkday.simps) (auto simp: IsNonWorkday_def)
next
  case (Suc n)
  show ?case
  proof (cases "IsNonWorkday L c d")
    case False
    with Suc.prems show ?thesis by (subst ShiftToWorkday.simps) (auto simp: IsNonWorkday_def)
  next
    case True
    from Suc.hyps(2) Suc.prems have "n = nat (d - 1 - d0)" "d0 \<le> d - 1" by auto
    from Suc.hyps(1) [OF this(1) Suc.prems(1) this(2)]
    obtain d' where "ShiftToWorkday L c (d - 1) = Some d'" "d0 \<le> d'" "d' \<le> d - 1"
      "\<not> IsNonWorkday L c d'" by blast
    with True show ?thesis
      by (subst ShiftToWorkday.simps) (auto simp: IsNonWorkday_def AddDate_def)
  qed
qed

lemma ShiftToWorkday_Some:
  assumes "ShiftToWorkday L c d = Some d'"
  shows "d' \<le> d \<and> \<not> IsNonWorkday L c d'"
  using assms
proof (induction rule: ShiftToWorkday.raw_induct [rotated, consumes 1])
  case (1 f L c d d')
  show ?case
  proof (cases "Excluded L c d \<or> Off c d")
    case True
    with 1(2) have rec: "f L c (d - 1) = Some d'" by (simp add: AddDate_def)
    have "d' \<le> d - 1 \<and> \<not> IsNonWorkday L c d'" using rec by (rule 1(1))
    then show ?thesis by simp
  next
    case False
    with 1(2) show ?thesis by (simp add: IsNonWorkday_def)
  qed
qed

lemma ShiftToWorkday_workday:
  "\<not> IsNonWorkday L c d \<Longrightarrow> ShiftToWorkday L c d = Some d"
  by (subst ShiftToWorkday.simps) (simp add: IsNonWorkday_def)

section \<open>The loops of GetRecentDays\<close>

lemma scan_entries_counter:
  assumes "scan_entries L c amount es counter entries = Some (brk, counter', entries')"
    and "finite counter" and "int (card counter) \<le> amount"
  shows "finite counter' \<and> int (card counter') \<le> amount \<and> counter \<subseteq> counter'
           \<and> (int (card counter) = amount \<longrightarrow> counter' = counter)"
  using assms
proof (induction es arbitrary: counter entries)
  case Nil
  then show ?case by simp
next
  case (Cons e es)
  show ?case
  proof (cases "SpentDate e")
    case None
    with Cons.prems have "scan_entries L c amount es counter entries = Some (brk, counter', entries')"
      by simp
    from Cons.IH [OF this Cons.prems(2,3)] show ?thesis .
  next
    case (Some d0)
    with Cons.prems(1) obtain d where d: "ShiftToWorkday L c d0 = Some d"
      by (cases "ShiftToWorkday L c d0") auto
    define df where "df = Format L dateFormat d"
    show ?thesis
    proof (cases "df \<notin> counter \<and> int (card counter) = amount")
      case True
      with Cons.prems Some d show ?thesis by (simp add: df_def)
    next
      case False
      with Cons.prems(1) Some d
      have rec: "scan_entries L c amount es (insert df counter) (entries @ [e])
                   = Some (brk, counter', entries')"
        by (auto simp: df_def Let_def split: if_splits)
      have fin: "finite (insert df counter)" using Cons.prems(2) by simp
      have le: "int (card (insert df counter)) \<le> amount"
        using False Cons.prems(2,3) by (auto simp: card_insert_if)
      from Cons.IH [OF rec fin le]
      have ih: "finite counter'" "int (card counter') \<le> amount" "insert df counter \<subseteq> counter'"
        "int (card (insert df counter)) = amount \<longrightarrow> counter' = insert df counter"
        by auto
      have "counter' = counter" if eq: "int (card counter) = amount"
      proof -
        from eq False have "df \<in> counter" by simp
        then have "insert df counter = counter" by auto
        with ih(4) eq show ?thesis by simp
      qed
      with ih show ?thesis by auto
    qed
  qed
qed

lemma scan_entries_entries:
  assumes "scan_entries L c amount es counter entries = Some (brk, counter', entries')"
  shows "counter \<subseteq> counter' \<and> (\<exists>kept. entries' = entries @ kept \<and> set kept \<subseteq> set es
           \<and> (\<forall>e \<in> set kept. \<exists>d0 d. SpentDate e = Some d0 \<and> ShiftToWorkday L c d0 = Some d
                  \<and> Format L dateFormat d \<in> counter'))"
  using assms
proof (induction es arbitrary: counter entries)
  case Nil
  then show ?case by simp
next
  case (Cons e es)
  show ?case
  proof (cases "SpentDate e")
    case None
    with Cons.prems have "scan_entries L c amount es counter entries = Some (brk, counter', entries')"
      by simp
    from Cons.IH [OF this] show ?thesis by auto
  next
    case (Some d0)
    with Cons.prems(1) obtain d where d: "ShiftToWorkday L c d0 = Some d"
      by (cases "ShiftToWorkday L c d0") auto
    define df where "df = Format L dateFormat d"
    show ?thesis
    proof (cases "df \<notin> counter \<and> int (card counter) = amount")
      case True
      with Cons.prems Some d show ?thesis by (simp add: df_def)
    next
      case False
      with Cons.prems(1) Some d
      have rec: "scan_entries L c amount es (insert df counter) (entries @ [e])
                   = Some (brk, counter', entries')"
        by (auto simp: df_def Let_def split: if_splits)
      from Cons.IH [OF rec] obtain kept where
        sub: "insert df counter \<subseteq> counter'" and
        k: "entries' = (entries @ [e]) @ kept" "set kept \<subseteq> set es"
        "\<forall>e \<in> set kept. \<exists>d0 d. SpentDate e = Some d0 \<and> ShiftToWorkday L c d0 = Some d
                  \<and> Format L dateFormat d \<in> counter'"
        by blast
      have "\<exists>d0 d. SpentDate e = Some d0 \<and> ShiftToWorkday L c d0 = Some d
                  \<and> Format L dateFormat d \<in> counter'"
        using Some d sub by (auto simp: df_def)
      with k have "entries' = entries @ (e # kept) \<and> set (e # kept) \<subseteq> set (e # es)
         \<and> (\<forall>e \<in> set (e # kept). \<exists>d0 d. SpentDate e = Some d0 \<and> ShiftToWorkday L c d0 = Some d
                  \<and> Format L dateFormat d \<in> counter')"
        by auto
      with sub show ?thesis by blast
    qed
  qed
qed

lemma scan_entries_total:
  assumes "\<And>d. ShiftToWorkday L c d \<noteq> None"
  shows "scan_entries L c amount es counter entries \<noteq> None"
proof (induction es arbitrary: counter entries)
  case Nil
  show ?case by simp
next
  case (Cons e es)
  show ?case
  proof (cases "SpentDate e")
    case None
    with Cons.IH show ?thesis by simp
  next
    case (Some d0)
    have "ShiftToWorkday L c d0 \<noteq> None" by (rule assms)
    then obtain d where "ShiftToWorkday L c d0 = Some d" by blast
    with Some Cons.IH show ?thesis by (auto simp: Let_def)
  qed
qed

lemma placeholder_loop_Some:
  assumes "placeholder_loop L c amount d counter entries = Some r"
    and "finite counter"
  shows "finite (fst r) \<and> int (card (fst r)) = amount \<and> fst r \<noteq> {}
    \<and> (\<exists>ds. snd r = entries @ map placeholder ds \<and> (\<forall>x \<in> set ds. \<not> IsNonWorkday L c x))"
  using assms
proof (induction rule: placeholder_loop.raw_induct [rotated, consumes 1])
  case (1 f L c amount d counter entries r)
  from 1(2) obtain d1 where d1: "ShiftToWorkday L c d = Some d1"
    by (cases "ShiftToWorkday L c d") auto
  define cnt where "cnt = insert (Format L dateFormat d1) counter"
  have wd: "\<not> IsNonWorkday L c d1" using ShiftToWorkday_Some [OF d1] by simp
  have fin: "finite cnt" using 1(3) by (simp add: cnt_def)
  show ?case
  proof (cases "int (card cnt) = amount")
    case True
    with 1(2) d1 have "r = (cnt, entries @ map placeholder [d1])"
      by (auto simp: cnt_def Let_def)
    with True fin wd show ?thesis by (auto simp: cnt_def intro!: exI [of _ "[d1]"])
  next
    case False
    with 1(2) d1
    have rec: "f L c amount (AddDate d1 (- 1)) cnt (entries @ [placeholder d1]) = Some r"
      by (auto simp: cnt_def Let_def)
    from 1(1) [OF rec fin] obtain ds where
      a: "finite (fst r)" "int (card (fst r)) = amount" "fst r \<noteq> {}" and
      b: "snd r = (entries @ [placeholder d1]) @ map placeholder ds"
      "\<forall>x \<in> set ds. \<not> IsNonWorkday L c x" by blast
    from b have "snd r = entries @ map placeholder (d1 # ds)
      \<and> (\<forall>x \<in> set (d1 # ds). \<not> IsNonWorkday L c x)" using wd by simp
    with a show ?thesis by blast
  qed
qed

lemma placeholder_loop_diverges:
  assumes "amount \<le> 0"
  shows "placeholder_loop L c amount d {} [] = None"
proof (rule ccontr)
  assume "placeholder_loop L c amount d {} [] \<noteq> None"
  then obtain r where r: "placeholder_loop L c amount d {} [] = Some r" by blast
  from placeholder_loop_Some [OF r] have "finite (fst r)" "int (card (fst r)) = amount" "fst r \<noteq> {}"
    by auto
  then have "0 < card (fst r)" by (simp add: card_gt_0_iff)
  with \<open>int (card (fst r)) = amount\<close> assms show False by linarith
qed


lemma pages_loop_Some:
  assumes "pages_loop L t amount params counter entries reqs = Some r"
    and "finite counter" and "int (card counter) \<le> amount"
  shows "(case r of (reqs', n, es, err) \<Rightarrow>
           n \<le> amount
         \<and> (err \<noteq> None \<longrightarrow> n = 0 \<and> es = [])
         \<and> (err = None \<longrightarrow>
               (\<exists>counter' kept. n = int (card counter') \<and> counter \<subseteq> counter'
                   \<and> (int (card counter) = amount \<longrightarrow> counter' = counter)
                   \<and> es = entries @ kept
                   \<and> (\<forall>e \<in> set kept.
                        (\<exists>p res. GetTimeEntries (harvest t) p = Inr res
                           \<and> e \<in> set (TimeEntries res))
                      \<and> (\<exists>d0 d. SpentDate e = Some d0
                           \<and> ShiftToWorkday L (conf t) d0 = Some d
                           \<and> Format L dateFormat d \<in> counter')))))"
  using assms
proof (induction rule: pages_loop.raw_induct [rotated, consumes 1])
  case (1 f L t amount params counter entries reqs r)
  have nonneg: "0 \<le> amount" using 1(4) by linarith
  let ?ok = "\<lambda>cnt e. (\<exists>p res. GetTimeEntries (harvest t) p = Inr res \<and> e \<in> set (TimeEntries res))
                \<and> (\<exists>d0 d. SpentDate e = Some d0 \<and> ShiftToWorkday L (conf t) d0 = Some d
                       \<and> Format L dateFormat d \<in> cnt)"
  show ?case
  proof (cases "GetTimeEntries (harvest t) params")
    case (Inl err)
    with 1(2) nonneg show ?thesis by auto
  next
    case (Inr res)
    with 1(2) obtain brk counter' entries' where
      sc: "scan_entries L (conf t) amount (TimeEntries res) counter entries
             = Some (brk, counter', entries')"
      by (cases "scan_entries L (conf t) amount (TimeEntries res) counter entries") auto
    from scan_entries_counter [OF sc 1(3,4)]
    have c': "finite counter'" "int (card counter') \<le> amount" "counter \<subseteq> counter'"
      "int (card counter) = amount \<longrightarrow> counter' = counter" by auto
    from scan_entries_entries [OF sc] obtain kept where
      kept: "entries' = entries @ kept" "set kept \<subseteq> set (TimeEntries res)"
        "\<forall>e \<in> set kept. \<exists>d0 d. SpentDate e = Some d0
            \<and> ShiftToWorkday L (conf t) d0 = Some d \<and> Format L dateFormat d \<in> counter'"
      by blast
    have ok: "\<forall>e \<in> set kept. ?ok counter' e"
      using kept(2,3) Inr by blast
    show ?thesis
    proof (cases "brk \<or> NextPage res = None")
      case True
      with 1(2) Inr sc have "r = (reqs @ [params], int (card counter'), entries', None)"
        by (auto split: if_splits)
      with c' kept(1) ok show ?thesis by auto
    next
      case False
      then obtain p where p: "NextPage res = Some p" and nb: "\<not> brk" by auto
      with 1(2) Inr sc
      have rec: "f L t amount (params\<lparr>Page := Some p\<rparr>) counter' entries' (reqs @ [params])
                   = Some r"
        by simp
      obtain reqs' n es err where r: "r = (reqs', n, es, err)" by (cases r) auto
      from 1(1) [OF rec c'(1,2)] r
      have ih: "n \<le> amount" "err \<noteq> None \<longrightarrow> n = 0 \<and> es = []"
        "err = None \<longrightarrow> (\<exists>counter'' kept'. n = int (card counter'') \<and> counter' \<subseteq> counter''
                   \<and> (int (card counter') = amount \<longrightarrow> counter'' = counter')
                   \<and> es = entries' @ kept' \<and> (\<forall>e \<in> set kept'. ?ok counter'' e))"
        by auto
      have "\<exists>counter'' kept''. n = int (card counter'') \<and> counter \<subseteq> counter''
                   \<and> (int (card counter) = amount \<longrightarrow> counter'' = counter)
                   \<and> es = entries @ kept'' \<and> (\<forall>e \<in> set kept''. ?ok counter'' e)"
        if "err = None"
      proof -
        from ih(3) that obtain counter'' kept' where k':
          "n = int (card counter'')" "counter' \<subseteq> counter''"
          "int (card counter') = amount \<longrightarrow> counter'' = counter'"
          "es = entries' @ kept'" "\<forall>e \<in> set kept'. ?ok counter'' e" by blast
        have "es = entries @ (kept @ kept')" using k'(4) kept(1) by simp
        moreover have "?ok counter'' e" if "e \<in> set kept" for e
          using ok that k'(2) by blast
        then have "\<forall>e \<in> set (kept @ kept'). ?ok counter'' e"
          using k'(5) by auto
        moreover have "counter \<subseteq> counter''" using c'(3) k'(2) by blast
        moreover have "int (card counter) = amount \<longrightarrow> counter'' = counter"
          using c'(4) k'(3) by auto
        ultimately show ?thesis using k'(1) by blast
      qed
      with ih(1,2) r show ?thesis by auto
    qed
  qed
qed

lemma pages_loop_total:
  assumes "pages_end h params" and "h = harvest t"
    and "\<And>d. ShiftToWorkday L (conf t) d \<noteq> None"
  shows "\<exists>reqs' n es. pages_loop L t amount params counter entries reqs
                         = Some (reqs', n, es, None)"
  using assms
proof (induction arbitrary: counter entries reqs rule: pages_end.induct)
  case (last_page h params res)
  obtain brk counter' entries' where
    "scan_entries L (conf t) amount (TimeEntries res) counter entries
       = Some (brk, counter', entries')"
    using scan_entries_total [OF last_page(4), of amount "TimeEntries res" counter entries]
    by auto
  with last_page(1,2,3) show ?case
    by (subst pages_loop.simps) auto
next
  case (next_page h params res p)
  obtain brk counter' entries' where
    sc: "scan_entries L (conf t) amount (TimeEntries res) counter entries
       = Some (brk, counter', entries')"
    using scan_entries_total [OF next_page(6), of amount "TimeEntries res" counter entries]
    by auto
  from next_page(4) [OF next_page(5,6), of counter' entries' "reqs @ [params]"]
  obtain reqs' n es where
    "pages_loop L t amount (params\<lparr>Page := Some p\<rparr>) counter' entries' (reqs @ [params])
       = Some (reqs', n, es, None)" by blast
  with sc next_page(1,2,5) show ?case
    by (subst pages_loop.simps) auto
qed

section \<open>Validation\<close>

lemma excluded_loop_None:
  "excluded_loop L vs m = (m', None) \<Longrightarrow>
     m' = m \<union> set vs \<and> (\<forall>v \<in> set vs. \<not> isl (Parse L dateFormat v))"
  by (induction vs arbitrary: m) (auto simp: Let_def split: sum.splits)

lemma excluded_loop_error:
  "snd (excluded_loop L vs m) \<noteq> None \<longleftrightarrow> (\<exists>v \<in> set vs. isl (Parse L dateFormat v))"
  by (induction vs arbitrary: m) (auto simp: Let_def split: sum.splits)

lemma weekdays_loop_None:
  "weekdays_loop L vs m = (m', None) \<Longrightarrow>
     m' = m \<union> {wd. \<exists>v \<in> set vs. wds L (ToLower L v) = Some wd}
       \<and> (\<forall>v \<in> set vs. wds L (ToLower L v) \<noteq> None)"
  by (induction vs arbitrary: m) (auto split: option.splits)

lemma weekdays_loop_error:
  "snd (weekdays_loop L vs m) \<noteq> None \<longleftrightarrow> (\<exists>v \<in> set vs. wds L (ToLower L v) = None)"
  by (induction vs arbitrary: m) (auto split: option.splits)

lemma wds_None: "wds L k = None \<longleftrightarrow> (\<forall>wd. k \<noteq> ToLower L (String wd))"
proof -
  have "wds L k = None \<longleftrightarrow> k \<notin> (\<lambda>w. ToLower L (String w)) ` set weekdays"
    by (simp add: wds_def map_of_eq_None_iff weekdays_def image_iff)
  then show ?thesis by (auto simp: UNIV_weekday [symmetric])
qed

lemma wds_Some:
  assumes "distinct (map (\<lambda>w. ToLower L (String w)) weekdays)"
  shows "wds L k = Some wd \<longleftrightarrow> k = ToLower L (String wd)"
proof -
  let ?ps = "rev (map (\<lambda>w. (ToLower L (String w), w))
             [Monday, Tuesday, Wednesday, Thursday, Friday, Saturday, Sunday])"
  define ws where "ws = [Monday, Tuesday, Wednesday, Thursday, Friday, Saturday, Sunday]"
  have "inj_on (\<lambda>w. ToLower L (String w)) (set weekdays)"
    using assms by (simp only: distinct_map)
  moreover have "set ws = set weekdays" "distinct ws" by (auto simp: ws_def weekdays_def)
  ultimately have "distinct (map (\<lambda>w. ToLower L (String w)) ws)"
    by (simp only: distinct_map simp_thms)
  then have "distinct (rev (map (\<lambda>w. ToLower L (String w)) ws))"
    by (simp only: distinct_rev)
  moreover have "map fst ?ps = rev (map (\<lambda>w. ToLower L (String w)) ws)"
    by (simp add: ws_def)
  ultimately have d: "distinct (map fst ?ps)" by (simp only:)
  have "wds L k = Some wd \<longleftrightarrow> (k, wd) \<in> set ?ps"
    unfolding wds_def by (rule map_of_eq_Some_iff [OF d])
  also have "\<dots> \<longleftrightarrow> k = ToLower L (String wd)"
    by (cases wd) auto
  finally show ?thesis .
qed

lemma Validate_None:
  assumes "Validate L c = (None, c')"
  shows "excludedMap c' = set (ExcludedDates c)"
    and "card (weekdaysOffMap c') \<le> 6"
    and "weekdaysOffMap c' = {wd. \<exists>v \<in> set (WeekdaysOff c). wds L (ToLower L v) = Some wd}"
proof -
  obtain em e1 where ex: "excluded_loop L (ExcludedDates c) {} = (em, e1)" by fastforce
  obtain wm e2 where wk: "weekdays_loop L (WeekdaysOff c) {} = (wm, e2)" by fastforce
  from assms ex wk have e: "e1 = None" "e2 = None"
    by (auto simp: Validate_def split: option.splits if_splits)
  from assms ex wk e have c': "card wm \<le> 6" "c' = c\<lparr>excludedMap := em, weekdaysOffMap := wm\<rparr>"
    by (auto simp: Validate_def split: if_splits)
  from excluded_loop_None [OF ex [unfolded e]] c'
  show "excludedMap c' = set (ExcludedDates c)" by simp
  from c' show "card (weekdaysOffMap c') \<le> 6" by simp
  from weekdays_loop_None [OF wk [unfolded e]] c'
  show "weekdaysOffMap c' = {wd. \<exists>v \<in> set (WeekdaysOff c). wds L (ToLower L v) = Some wd}"
    by simp
qed

lemma validated_workday_below:
  assumes "inj (Format L dateFormat)" and "Validate L c = (None, c')"
  shows "\<exists>d0 \<le> d. \<not> IsNonWorkday L c' d0"
proof -
  have "finite (excludedMap c')" using Validate_None(1) [OF assms(2)] by simp
  then have "finite (Format L dateFormat -` excludedMap c')"
    using assms(1) by (rule finite_vimageI)
  then have fin: "finite {d. Excluded L c' d}" by (simp add: Excluded_def vimage_def)
  obtain w where "w \<notin> weekdaysOffMap c'"
    using weekday_left [OF Validate_None(2) [OF assms(2)]] by blast
  with fin show ?thesis by (rule workday_below)
qed

lemma validated_ShiftToWorkday:
  assumes "inj (Format L dateFormat)" and "Validate L c = (None, c')"
  shows "\<exists>d'. ShiftToWorkday L c' d = Some d' \<and> d' \<le> d \<and> \<not> IsNonWorkday L c' d'"
proof -
  obtain d0 where "d0 \<le> d" "\<not> IsNonWorkday L c' d0"
    using validated_workday_below [OF assms] by blast
  from ShiftToWorkday_terminates [OF this(2,1)] show ?thesis by blast
qed


lemma find_project_last:
  "find_project name ps pid =
     (case filter (\<lambda>p. Name p = name) ps of [] \<Rightarrow> pid | m # ms \<Rightarrow> ProjectID (last (m # ms)))"
  by (induction ps arbitrary: pid) (auto split: list.splits)

section \<open>The calendar of the standard library\<close>

lemma mod_eq_0_bound:
  fixes k n :: int
  assumes "0 < k" "k \<le> n"
  shows "k mod n = 0 \<longleftrightarrow> k = n"
proof (cases "k = n")
  case True
  then show ?thesis by simp
next
  case False
  with assms have "k mod n = k" by simp
  with assms False show ?thesis by simp
qed

lemma month_day_ok:
  assumes "0 \<le> yday" and "yday < 365 + (if leap then 1 else 0)"
    and "month_day leap yday = (m, d)"
  shows "1 \<le> m \<and> m \<le> 12 \<and> 1 \<le> d \<and> d \<le> 31
           \<and> days_before_month leap m + (d - 1) = yday"
proof (cases leap)
  case True
  with assms show ?thesis
    unfolding month_day_def Let_def
    by (simp split: if_splits; simp add: days_before_month_def)
next
  case False
  with assms show ?thesis
    unfolding month_day_def Let_def
    by (simp split: if_splits; simp add: days_before_month_def)
qed

lemma year_cycle:
  fixes r0 :: int
  assumes "0 \<le> r0" "r0 < 146097"
  defines "n100 \<equiv> min 3 (r0 div 36524)"
  defines "r1 \<equiv> r0 - 36524 * n100"
  defines "n4 \<equiv> r1 div 1461"
  defines "r2 \<equiv> r1 mod 1461"
  defines "n1 \<equiv> min 3 (r2 div 365)"
  defines "yday \<equiv> r2 - 365 * n1"
  shows "0 \<le> n100" "n100 \<le> 3" "0 \<le> n4" "n4 \<le> 24" "0 \<le> n1" "n1 \<le> 3"
    "0 \<le> yday"
    "yday < 365 + (if n1 = 3 \<and> (n4 < 24 \<or> n100 = 3) then 1 else 0)"
    "r0 = 36524 * n100 + 1461 * n4 + 365 * n1 + yday"
proof -
  have a: "0 \<le> n100" "n100 \<le> 3" "0 \<le> r1" "r1 \<le> 36524" "n100 < 3 \<longrightarrow> r1 < 36524"
    using assms(1,2) unfolding r1_def n100_def by (auto simp: min_def)
  have b: "0 \<le> n4" "n4 \<le> 24" "0 \<le> r2" "r2 < 1461" "r1 = 1461 * n4 + r2"
    using a(3,4) unfolding n4_def r2_def by auto
  have c: "0 \<le> n1" "n1 \<le> 3" "0 \<le> yday" "yday \<le> 365" "n1 < 3 \<longrightarrow> yday < 365"
    using b(3,4) unfolding yday_def n1_def by (auto simp: min_def)
  show "0 \<le> n100" "n100 \<le> 3" "0 \<le> n4" "n4 \<le> 24" "0 \<le> n1" "n1 \<le> 3" "0 \<le> yday"
    using a b c by auto
  show "r0 = 36524 * n100 + 1461 * n4 + 365 * n1 + yday"
    using b(5) unfolding r1_def yday_def by linarith
  have "yday < 365" if "n1 = 3" "n4 = 24" "n100 < 3"
  proof -
    from that a(5) have "r1 < 36524" by simp
    with b(5) that have "r2 < 1460" by linarith
    with that show ?thesis unfolding yday_def by linarith
  qed
  with c show "yday < 365 + (if n1 = 3 \<and> (n4 < 24 \<or> n100 = 3) then 1 else 0)"
    using a(2) b(2) by (auto simp: not_less) 
qed

lemma year_of_cycle:
  fixes n400 n100 n4 n1 :: int
  assumes "0 \<le> n100" "n100 \<le> 3" "0 \<le> n4" "n4 \<le> 24" "0 \<le> n1" "n1 \<le> 3"
  defines "y \<equiv> 400 * n400 + 100 * n100 + 4 * n4 + n1 + 1"
  shows "days_before_year y = 146097 * n400 + 36524 * n100 + 1461 * n4 + 365 * n1"
    and "is_leap y \<longleftrightarrow> n1 = 3 \<and> (n4 < 24 \<or> n100 = 3)"
proof -
  have d4: "(y - 1) div 4 = 100 * n400 + 25 * n100 + n4"
    using assms(5,6) unfolding y_def by linarith
  have d100: "(y - 1) div 100 = 4 * n400 + n100"
    using assms(3-6) unfolding y_def by linarith
  have d400: "(y - 1) div 400 = n400"
    using assms(1-6) unfolding y_def by linarith
  show "days_before_year y = 146097 * n400 + 36524 * n100 + 1461 * n4 + 365 * n1"
    unfolding days_before_year_def d4 d100 d400 unfolding y_def by simp
  define k4 where "k4 = n1 + 1"
  define k100 where "k100 = 4 * n4 + n1 + 1"
  define k400 where "k400 = 100 * n100 + 4 * n4 + n1 + 1"
  have "y = 4 * (100 * n400 + 25 * n100 + n4) + k4" by (simp add: y_def k4_def)
  then have "y mod 4 = k4 mod 4" by (simp only: mod_mult_self4)
  moreover have "k4 mod 4 = 0 \<longleftrightarrow> k4 = 4"
    using assms(5,6) unfolding k4_def by (intro mod_eq_0_bound) auto
  ultimately have m4: "y mod 4 = 0 \<longleftrightarrow> n1 = 3" by (auto simp: k4_def)
  have "y = 100 * (4 * n400 + n100) + k100" by (simp add: y_def k100_def)
  then have "y mod 100 = k100 mod 100" by (simp only: mod_mult_self4)
  moreover have "k100 mod 100 = 0 \<longleftrightarrow> k100 = 100"
    using assms(3-6) unfolding k100_def by (intro mod_eq_0_bound) auto
  moreover have "k100 = 100 \<longleftrightarrow> n4 = 24 \<and> n1 = 3"
    using assms(3-6) unfolding k100_def by (safe; linarith)
  ultimately have m100: "y mod 100 = 0 \<longleftrightarrow> n4 = 24 \<and> n1 = 3" by simp
  have "y = 400 * n400 + k400" by (simp add: y_def k400_def)
  then have "y mod 400 = k400 mod 400" by (simp only: mod_mult_self4)
  moreover have "k400 mod 400 = 0 \<longleftrightarrow> k400 = 400"
    using assms(1-6) unfolding k400_def by (intro mod_eq_0_bound) auto
  moreover have "k400 = 400 \<longleftrightarrow> n100 = 3 \<and> n4 = 24 \<and> n1 = 3"
    using assms(1-6) unfolding k400_def by (safe; linarith)
  ultimately have m400: "y mod 400 = 0 \<longleftrightarrow> n100 = 3 \<and> n4 = 24 \<and> n1 = 3" by simp
  show "is_leap y \<longleftrightarrow> n1 = 3 \<and> (n4 < 24 \<or> n100 = 3)"
    unfolding is_leap_def m4 m100 m400 using assms(4) by auto
qed

lemma civil_roundtrip:
  assumes "civil_from_days z = (y, m, d)"
  shows "days_from_civil (y, m, d) = z \<and> 1 \<le> m \<and> m \<le> 12 \<and> 1 \<le> d \<and> d \<le> 31"
proof -
  define a where "a = z + 719162"
  define n400 where "n400 = a div 146097"
  define r0 where "r0 = a mod 146097"
  define n100 where "n100 = min 3 (r0 div 36524)"
  define r1 where "r1 = r0 - 36524 * n100"
  define n4 where "n4 = r1 div 1461"
  define r2 where "r2 = r1 mod 1461"
  define n1 where "n1 = min 3 (r2 div 365)"
  define yday where "yday = r2 - 365 * n1"
  define y' where "y' = 400 * n400 + 100 * n100 + 4 * n4 + n1 + 1"
  have r0: "0 \<le> r0" "r0 < 146097" by (simp_all add: r0_def)
  note cyc = year_cycle [OF r0, folded n100_def, folded r1_def, folded n4_def r2_def,
      folded n1_def, folded yday_def]
  note yr = year_of_cycle [OF cyc(1-6), of n400, folded y'_def]
  have md: "month_day (is_leap y') yday = (m, d)" and y: "y = y'"
    using assms
    unfolding civil_from_days_def Let_def a_def [symmetric] n400_def [symmetric]
      r0_def [symmetric] n100_def [symmetric] r1_def [symmetric] n4_def [symmetric]
      r2_def [symmetric] n1_def [symmetric] yday_def [symmetric] y'_def [symmetric]
    by (auto split: prod.splits)
  have "yday < 365 + (if is_leap y' then 1 else 0)" using cyc(8) yr(2) by simp
  from month_day_ok [OF cyc(7) this md]
  have m: "1 \<le> m" "m \<le> 12" "1 \<le> d" "d \<le> 31"
    "days_before_month (is_leap y') m + (d - 1) = yday" by auto
  have "a = 146097 * n400 + r0" by (simp add: n400_def r0_def)
  with cyc(9) have "a = days_before_year y' + yday" using yr(1) by linarith
  with m(5) have "days_from_civil (y', m, d) = z"
    by (simp add: days_from_civil_def a_def)
  with m y show ?thesis by simp
qed

lemma is_digit_digit: "(k::nat) < 10 \<Longrightarrow> is_digit (char_of (48 + k))"
  by (simp add: is_digit_def of_char_of)

lemma digits_are_digits: "ch \<in> set (digits n) \<Longrightarrow> is_digit ch"
proof (induction n rule: digits.induct)
  case (1 n)
  show ?case
  proof (cases "n < 10")
    case True
    with 1(2) show ?thesis by (simp add: digits.simps [of n] is_digit_digit)
  next
    case False
    with 1 show ?thesis
      by (auto simp: digits.simps [of n] is_digit_digit)
  qed
qed

lemma digits_not_empty: "digits n \<noteq> []"
  by (subst digits.simps) simp

lemma parse_nat_snoc: "parse_nat (s @ [ch]) = 10 * parse_nat s + (of_char ch - 48)"
  by (simp add: parse_nat_def)

lemma parse_nat_digits: "parse_nat (digits n) = n"
proof (induction n rule: digits.induct)
  case (1 n)
  show ?case
  proof (cases "n < 10")
    case True
    then show ?thesis by (simp add: digits.simps [of n] parse_nat_def)
  next
    case False
    have "n mod 10 < 10" by simp
    then have "of_char (char_of (48 + n mod 10)) - 48 = n mod 10"
      by (simp add: of_char_of)
    with False 1 show ?thesis
      by (simp add: digits.simps [of n] parse_nat_snoc)
  qed
qed

lemma foldl_zeros:
  "foldl (\<lambda>a ch. 10 * a + (of_char ch - 48)) (0::nat) (replicate k CHR ''0'') = 0"
  by (induction k) simp_all

lemma parse_nat_zero_pad: "parse_nat (zero_pad w (digits n)) = n"
  using parse_nat_digits [of n]
  by (simp add: zero_pad_def parse_nat_def foldl_zeros)

lemma zero_pad_digits: "ch \<in> set (zero_pad w (digits n)) \<Longrightarrow> is_digit ch"
  by (auto simp: zero_pad_def is_digit_def dest: digits_are_digits)

lemma zero_pad_not_empty: "zero_pad w (digits n) \<noteq> []"
  by (simp add: zero_pad_def digits_not_empty)

lemma zero_pad_inj: "zero_pad w (digits a) = zero_pad w (digits b) \<Longrightarrow> a = b"
  using parse_nat_zero_pad by metis

lemma format_year_inj:
  assumes "format_year a = format_year b"
  shows "a = b"
proof -
  have no_minus: "CHR ''-'' # xs \<noteq> zero_pad w (digits n)" for xs w n
  proof
    assume e: "CHR ''-'' # xs = zero_pad w (digits n)"
    then have "CHR ''-'' \<in> set (zero_pad w (digits n))" by (metis list.set_intros(1))
    then have "is_digit CHR ''-''" by (rule zero_pad_digits)
    then show False by (simp add: is_digit_def)
  qed
  consider "a < 0" "b < 0" | "a < 0" "0 \<le> b" | "0 \<le> a" "b < 0" | "0 \<le> a" "0 \<le> b"
    by linarith
  then show ?thesis
  proof cases
    case 1
    with assms have "nat (- a) = nat (- b)" by (auto simp: format_year_def dest: zero_pad_inj)
    with 1 show ?thesis by simp
  next
    case 2
    with assms no_minus show ?thesis by (auto simp: format_year_def)
  next
    case 3
    with assms no_minus [of _ 4 "nat a"] show ?thesis by (auto simp: format_year_def)
  next
    case 4
    with assms have "nat a = nat b" by (auto simp: format_year_def dest: zero_pad_inj)
    with 4 show ?thesis by simp
  qed
qed

lemma length_format_2:
  assumes "0 \<le> n" "n < 100"
  shows "length (format_2 n) = 2"
proof (cases "n < 10")
  case True
  with assms have "nat n < 10" by simp
  then show ?thesis
    by (simp add: format_2_def zero_pad_def digits.simps [of "nat n"])
next
  case False
  with assms have "nat n div 10 < 10" "\<not> nat n < 10" by auto
  then show ?thesis
    by (simp add: format_2_def zero_pad_def digits.simps [of "nat n"]
        digits.simps [of "nat n div 10"])
qed

lemma format_2_inj:
  assumes "format_2 a = format_2 b" "0 \<le> a" "0 \<le> b"
  shows "a = b"
proof -
  from assms(1) have "nat a = nat b" unfolding format_2_def by (rule zero_pad_inj)
  with assms(2,3) show ?thesis by simp
qed

lemma Time_Format_inj: "inj (Time_Format dateFormat)"
proof (rule injI)
  fix a b :: date
  assume eq: "Time_Format dateFormat a = Time_Format dateFormat b"
  obtain ya ma da where ca: "civil_from_days a = (ya, ma, da)" by (cases "civil_from_days a")
  obtain yb mb db where cb: "civil_from_days b = (yb, mb, db)" by (cases "civil_from_days b")
  note ra = civil_roundtrip [OF ca] and rb = civil_roundtrip [OF cb]
  have la: "length (format_2 ma) = 2" "length (format_2 da) = 2"
    using ra by (simp_all add: length_format_2)
  have lb: "length (format_2 mb) = 2" "length (format_2 db) = 2"
    using rb by (simp_all add: length_format_2)
  from eq ca cb
  have "format_year ya @ (CHR ''-'' # format_2 ma @ CHR ''-'' # format_2 da)
      = format_year yb @ (CHR ''-'' # format_2 mb @ CHR ''-'' # format_2 db)"
    by (simp add: Time_Format_def dateFormat_def)
  then have y: "format_year ya = format_year yb"
    and rest: "format_2 ma @ CHR ''-'' # format_2 da = format_2 mb @ CHR ''-'' # format_2 db"
    using la lb by (simp_all add: append_eq_append_conv)
  from rest la lb have "format_2 ma = format_2 mb" "format_2 da = format_2 db"
    by (simp_all add: append_eq_append_conv)
  then have "ma = mb" "da = db" using ra rb by (auto intro: format_2_inj)
  moreover have "ya = yb" using y by (rule format_year_inj)
  ultimately show "a = b" using ra rb by simp
qed

lemma golib_Format_inj: "inj (Format golib dateFormat)"
  by (simp add: golib_def Time_Format_inj)

section \<open>The example session\<close>

lemma validate_example: "Validate golib example_config = (None, validated_config)"
  by code_simp

lemma example_pages_end:
  "pages_end (harvest example_session) \<lparr>UserID = Some 123456, To = Some d, Page = None\<rparr>"
proof -
  let ?p = "\<lparr>UserID = Some 123456, To = Some d, Page = None\<rparr>"
  let ?r1 = "\<lparr>TimeEntries = [\<lparr>Hours = 2, SpentDate = Some 17859\<rparr>,
                               \<lparr>Hours = 6, SpentDate = Some 17858\<rparr>,
                               \<lparr>Hours = 1, SpentDate = None\<rparr>],
               NextPage = Some 2\<rparr>"
  let ?r2 = "\<lparr>TimeEntries = [\<lparr>Hours = 10, SpentDate = Some 17857\<rparr>], NextPage = None\<rparr>"
  have g2: "GetTimeEntries example_harvest (?p\<lparr>Page := Some 2\<rparr>) = Inr ?r2"
    by (simp add: example_harvest_def)
  have g1: "GetTimeEntries example_harvest ?p = Inr ?r1"
    by (simp add: example_harvest_def)
  have n1: "NextPage ?r1 = Some 2" by simp
  have "pages_end example_harvest (?p\<lparr>Page := Some 2\<rparr>)"
    using g2 by (rule last_page) simp
  with g1 n1 have "pages_end example_harvest ?p"
    by (rule next_page)
  then show ?thesis by (simp add: example_session_def)
qed

lemma example_distinct_names: "distinct (map (\<lambda>w. ToLower golib (String w)) weekdays)"
  by code_simp

lemma example_user: "user example_session = Some \<lparr>ID = 123456\<rparr>"
  by (simp add: example_session_def)

lemma example_conf: "conf example_session = validated_config"
  by (simp add: example_session_def)

text \<open>
  The scenario of the specification: 2018-11-01 (day 17836), an excluded Thursday, is
  shifted to 2018-10-31, and Saturday 2018-11-24 to Friday 2018-11-23.
\<close>

lemma example_shifts:
  "ShiftToWorkday golib validated_config 17836 = Some 17835"
  "Time_Format dateFormat 17836 = ''2018-11-01''"
  "Time_Format dateFormat 17835 = ''2018-10-31''"
  "ShiftToWorkday golib validated_config 17859 = Some 17858"
  "Time_Format dateFormat 17859 = ''2018-11-24''"
  "Time_Format dateFormat 17858 = ''2018-11-23''"
  by code_simp+

text \<open>
  Runs of \<open>GetRecentDays\<close> on the example, from Sunday 2018-11-25 (day 17860): one day of
  tracked entries, five days of tracked entries, three days with placeholders.
\<close>

lemma example_run_1:
  "GetRecentDays golib example_session 1 17860 False
     = Some ([\<lparr>UserID = Some 123456, To = Some 17860, Page = None\<rparr>,
              \<lparr>UserID = Some 123456, To = Some 17860, Page = Some 2\<rparr>],
             Returns (1, [\<lparr>Hours = 2, SpentDate = Some 17859\<rparr>,
                          \<lparr>Hours = 6, SpentDate = Some 17858\<rparr>], None))"
  by code_simp

lemma example_run_5:
  "GetRecentDays golib example_session 5 17860 False
     = Some ([\<lparr>UserID = Some 123456, To = Some 17860, Page = None\<rparr>,
              \<lparr>UserID = Some 123456, To = Some 17860, Page = Some 2\<rparr>],
             Returns (2, [\<lparr>Hours = 2, SpentDate = Some 17859\<rparr>,
                          \<lparr>Hours = 6, SpentDate = Some 17858\<rparr>,
                          \<lparr>Hours = 10, SpentDate = Some 17857\<rparr>], None))"
  by code_simp

lemma example_run_3:
  "GetRecentDays golib example_session 3 17860 True
     = Some ([\<lparr>UserID = Some 123456, To = Some 17860, Page = None\<rparr>,
              \<lparr>UserID = Some 123456, To = Some 17860, Page = Some 2\<rparr>],
             Returns (3, [\<lparr>Hours = 0, SpentDate = Some 17858\<rparr>,
                          \<lparr>Hours = 0, SpentDate = Some 17857\<rparr>,
                          \<lparr>Hours = 0, SpentDate = Some 17856\<rparr>,
                          \<lparr>Hours = 2, SpentDate = Some 17859\<rparr>,
                          \<lparr>Hours = 6, SpentDate = Some 17858\<rparr>,
                          \<lparr>Hours = 10, SpentDate = Some 17857\<rparr>], None))"
  by code_simp

lemma example_saturday: "IsNonWorkday golib validated_config 17859"
  by code_simp

section \<open>The claims\<close>

subsection \<open>C1: the placeholder days\<close>




subsection \<open>C2: the count is at most the amount\<close>

text \<open>
  Claim C2: whatever the amount, the starting date, the flag and the answers of the
  remote service, a distinct-day count that \<open>GetRecentDays\<close> returns is never greater
  than \<open>amount\<close>. (With a negative amount nothing is returned: \<open>make\<close> panics.)
\<close>

theorem GetRecentDays_count_le_amount:
  assumes "GetRecentDays L t amount from actualDays = Some (reqs, Returns (n, es, err))"
  shows "n \<le> amount"
proof -
  from assms obtain u where u: "user t = Some u"
    by (cases "user t") (auto simp: GetRecentDays_def)
  from assms u have nonneg: "0 \<le> amount"
    by (auto simp: GetRecentDays_def split: if_splits)
  define start where "start = (if actualDays then placeholder_loop L (conf t) amount from {} []
             else Some ({}, []))"
  from assms u nonneg obtain counter entries where
    st: "start = Some (counter, entries)"
    by (cases start) (auto simp: GetRecentDays_def start_def)
  have cnt: "finite counter \<and> int (card counter) \<le> amount"
  proof (cases actualDays)
    case True
    with st have "placeholder_loop L (conf t) amount from {} [] = Some (counter, entries)"
      by (simp add: start_def)
    from placeholder_loop_Some [OF this] show ?thesis by simp
  next
    case False
    with st nonneg show ?thesis by (simp add: start_def)
  qed
  define params where "params = \<lparr>UserID = Some (ID u), To = Some from, Page = None\<rparr>"
  from assms u nonneg st
  have "pages_loop L t amount params counter entries [] = Some (reqs, n, es, err)"
    by (cases "pages_loop L t amount params counter entries []")
      (auto simp: GetRecentDays_def start_def [symmetric] params_def [symmetric])
  from pages_loop_Some [OF this] cnt show ?thesis by simp
qed

text \<open>Witness of C2: five days are asked for, the service has entries on two.\<close>

theorem GetRecentDays_count_le_amount_witness:
  "GetRecentDays golib example_session 5 17860 False
     = Some ([\<lparr>UserID = Some 123456, To = Some 17860, Page = None\<rparr>,
              \<lparr>UserID = Some 123456, To = Some 17860, Page = Some 2\<rparr>],
             Returns (2, [\<lparr>Hours = 2, SpentDate = Some 17859\<rparr>,
                          \<lparr>Hours = 6, SpentDate = Some 17858\<rparr>,
                          \<lparr>Hours = 10, SpentDate = Some 17857\<rparr>], None))
   \<and> (2::int) \<le> 5"
  using GetRecentDays_count_le_amount [OF example_run_5] example_run_5 by (intro conjI)

subsection \<open>C3: an amount that is not positive\<close>

text \<open>
  Claim C3 says that for every amount \<open>\<le> 0\<close> and either value of the flag
  \<open>GetRecentDays\<close> ends and returns an empty collection and no error. With the amount
  \<open>-1\<close> the call panics in \<open>make\<close>, whose capacity is the amount; with the amount 0 and
  \<open>actualDays\<close> set it does not come back.
\<close>

theorem GetRecentDays_amount_not_positive:
  "GetRecentDays golib example_session (- 1) 17860 False
     = Some ([], Panics MakesliceCapOutOfRange)
   \<and> GetRecentDays golib example_session 0 17860 True = None"
  by (simp add: GetRecentDays_def example_session_def placeholder_loop_diverges)

text \<open>
  Claim C3 as amended: for the amount 0 without \<open>actualDays\<close>, and every starting date,
  in a session whose configuration has passed \<open>Validate\<close> and that has a user, on a remote
  service that answers the pages without an error up to a last one, \<open>GetRecentDays\<close>
  returns the count 0, an empty collection and no error.
\<close>

theorem GetRecentDays_amount_zero:
  assumes "inj (Format L dateFormat)" and "Validate L c = (None, conf t)"
    and "user t = Some u"
    and "pages_end (harvest t) \<lparr>UserID = Some (ID u), To = Some from, Page = None\<rparr>"
  shows "\<exists>reqs. GetRecentDays L t 0 from False = Some (reqs, Returns (0, [], None))"
proof -
  have total: "\<And>d. ShiftToWorkday L (conf t) d \<noteq> None"
    using validated_ShiftToWorkday [OF assms(1,2)] by fastforce
  define params where "params = \<lparr>UserID = Some (ID u), To = Some from, Page = None\<rparr>"
  from pages_loop_total [OF assms(4) refl total, of 0 "{}" "[]" "[]"]
  obtain reqs n es where
    pl: "pages_loop L t 0 params {} [] [] = Some (reqs, n, es, None)"
    by (auto simp: params_def)
  from pages_loop_Some [OF pl] have "n = 0 \<and> es = []" by auto
  then show ?thesis
    using assms(3) pl by (simp add: GetRecentDays_def params_def)
qed

text \<open>Witness of C3: the example session.\<close>

theorem GetRecentDays_amount_zero_witness:
  "inj (Format golib dateFormat)
   \<and> Validate golib example_config = (None, conf example_session)
   \<and> user example_session = Some \<lparr>ID = 123456\<rparr>
   \<and> pages_end (harvest example_session)
        \<lparr>UserID = Some (ID \<lparr>ID = 123456\<rparr>), To = Some 17860, Page = None\<rparr>
   \<and> (\<exists>reqs. GetRecentDays golib example_session 0 17860 False
                 = Some (reqs, Returns (0, [], None)))"
proof -
  have h1: "inj (Format golib dateFormat)" by (rule golib_Format_inj)
  have h2: "Validate golib example_config = (None, conf example_session)"
    by (simp add: validate_example example_conf)
  have h3: "user example_session = Some \<lparr>ID = 123456\<rparr>" by (rule example_user)
  have h4: "pages_end (harvest example_session)
        \<lparr>UserID = Some (ID \<lparr>ID = 123456\<rparr>), To = Some 17860, Page = None\<rparr>"
    using example_pages_end [of 17860] by simp
  from GetRecentDays_amount_zero [OF h1 h2 h3 h4] h1 h2 h3 h4 show ?thesis by blast
qed

subsection \<open>C4: the stored date of a retained entry\<close>

text \<open>
  Claim C4 says that \<open>GetRecentDays\<close> overwrites the stored date of every entry it
  retains with the shifted date, so that no returned entry has a date that is a
  non-workday. \<open>GetRecentDays\<close> shifts a copy of the date and appends the entry as it came:
  in the example it returns the entry of Saturday 2018-11-24 with that date.
\<close>

theorem GetRecentDays_returns_saturday:
  "GetRecentDays golib example_session 1 17860 False
     = Some ([\<lparr>UserID = Some 123456, To = Some 17860, Page = None\<rparr>,
              \<lparr>UserID = Some 123456, To = Some 17860, Page = Some 2\<rparr>],
             Returns (1, [\<lparr>Hours = 2, SpentDate = Some 17859\<rparr>,
                          \<lparr>Hours = 6, SpentDate = Some 17858\<rparr>], None))
   \<and> IsNonWorkday golib (conf example_session) 17859"
  using example_run_1 example_saturday by (simp add: example_conf)

text \<open>
  Claim C4 as amended: the entries that \<open>GetRecentDays\<close> returns are its placeholders,
  whose dates are workdays, followed by entries of the remote service exactly as the
  service delivered them, the stored date included. The stored date is overwritten by
  the callback that \<open>GetRecentDaysGrouped\<close> passes to \<open>Group\<close>: under a validated
  configuration, given an entry with a date, it returns the entry with the shifted date
  in place of the stored one, and \<open>IsNonWorkday\<close> is false of the shifted date.
\<close>

theorem GetRecentDays_keeps_stored_dates:
  "(GetRecentDays L t amount from actualDays = Some (reqs, Returns (n, es, None)) \<longrightarrow>
      (\<exists>ds kept. es = map placeholder ds @ kept
         \<and> (\<forall>d \<in> set ds. \<not> IsNonWorkday L (conf t) d)
         \<and> (\<forall>e \<in> set kept. \<exists>p res. GetTimeEntries (harvest t) p = Inr res
                \<and> e \<in> set (TimeEntries res))))
   \<and> (inj (Format L dateFormat) \<and> Validate L c = (None, c') \<and> SpentDate e = Some d0 \<longrightarrow>
      (\<exists>d k. group_key L c' groupBy layout e = Some (e\<lparr>SpentDate := Some d\<rparr>, k, True)
         \<and> ShiftToWorkday L c' d0 = Some d \<and> \<not> IsNonWorkday L c' d))"
proof (intro conjI impI)
  assume a: "GetRecentDays L t amount from actualDays = Some (reqs, Returns (n, es, None))"
  from a obtain u where u: "user t = Some u"
    by (cases "user t") (auto simp: GetRecentDays_def)
  from a u have nonneg: "0 \<le> amount"
    by (auto simp: GetRecentDays_def split: if_splits)
  define start where "start = (if actualDays then placeholder_loop L (conf t) amount from {} []
             else Some ({}, []))"
  from a u nonneg obtain counter entries where
    st: "start = Some (counter, entries)"
    by (cases start) (auto simp: GetRecentDays_def start_def)
  have cnt: "finite counter \<and> int (card counter) \<le> amount
       \<and> (\<exists>ds. entries = map placeholder ds \<and> (\<forall>x \<in> set ds. \<not> IsNonWorkday L (conf t) x))"
  proof (cases actualDays)
    case True
    with st have "placeholder_loop L (conf t) amount from {} [] = Some (counter, entries)"
      by (simp add: start_def)
    from placeholder_loop_Some [OF this] show ?thesis by simp
  next
    case False
    with st nonneg show ?thesis by (simp add: start_def)
  qed
  then obtain ds where ds: "entries = map placeholder ds"
    "\<forall>x \<in> set ds. \<not> IsNonWorkday L (conf t) x" by blast
  define params where "params = \<lparr>UserID = Some (ID u), To = Some from, Page = None\<rparr>"
  from a u nonneg st
  have "pages_loop L t amount params counter entries [] = Some (reqs, n, es, None)"
    by (cases "pages_loop L t amount params counter entries []")
      (auto simp: GetRecentDays_def start_def [symmetric] params_def [symmetric])
  from pages_loop_Some [OF this] cnt obtain kept where
    "es = entries @ kept"
    "\<forall>e \<in> set kept. \<exists>p res. GetTimeEntries (harvest t) p = Inr res \<and> e \<in> set (TimeEntries res)"
    by auto
  with ds show "\<exists>ds kept. es = map placeholder ds @ kept
         \<and> (\<forall>d \<in> set ds. \<not> IsNonWorkday L (conf t) d)
         \<and> (\<forall>e \<in> set kept. \<exists>p res. GetTimeEntries (harvest t) p = Inr res
                \<and> e \<in> set (TimeEntries res))"
    by blast
next
  assume b: "inj (Format L dateFormat) \<and> Validate L c = (None, c') \<and> SpentDate e = Some d0"
  then obtain d where d: "ShiftToWorkday L c' d0 = Some d" "\<not> IsNonWorkday L c' d"
    using validated_ShiftToWorkday [of L c c' d0] by blast
  with b show "\<exists>d k. group_key L c' groupBy layout e = Some (e\<lparr>SpentDate := Some d\<rparr>, k, True)
         \<and> ShiftToWorkday L c' d0 = Some d \<and> \<not> IsNonWorkday L c' d"
    by (auto simp: group_key_def Let_def split: prod.splits)
qed

text \<open>Witness of C4: the run above, and the callback on the entry of the Saturday.\<close>

theorem GetRecentDays_keeps_stored_dates_witness:
  "GetRecentDays golib example_session 1 17860 False
     = Some ([\<lparr>UserID = Some 123456, To = Some 17860, Page = None\<rparr>,
              \<lparr>UserID = Some 123456, To = Some 17860, Page = Some 2\<rparr>],
             Returns (1, [\<lparr>Hours = 2, SpentDate = Some 17859\<rparr>,
                          \<lparr>Hours = 6, SpentDate = Some 17858\<rparr>], None))
   \<and> (\<exists>ds kept. [\<lparr>Hours = 2, SpentDate = Some 17859\<rparr>, \<lparr>Hours = 6, SpentDate = Some 17858\<rparr>]
                   = map placeholder ds @ kept
         \<and> (\<forall>d \<in> set ds. \<not> IsNonWorkday golib (conf example_session) d)
         \<and> (\<forall>e \<in> set kept. \<exists>p res. GetTimeEntries (harvest example_session) p = Inr res
                \<and> e \<in> set (TimeEntries res)))
   \<and> inj (Format golib dateFormat)
   \<and> Validate golib example_config = (None, validated_config)
   \<and> SpentDate \<lparr>Hours = 2, SpentDate = Some 17859\<rparr> = Some 17859
   \<and> (\<exists>d k. group_key golib validated_config groupByDay dateFormat
                \<lparr>Hours = 2, SpentDate = Some 17859\<rparr>
              = Some (\<lparr>Hours = 2, SpentDate = Some 17859\<rparr>\<lparr>SpentDate := Some d\<rparr>, k, True)
         \<and> ShiftToWorkday golib validated_config 17859 = Some d
         \<and> \<not> IsNonWorkday golib validated_config d)"
proof -
  note inst = GetRecentDays_keeps_stored_dates
    [of golib example_session 1 17860 False
        "[\<lparr>UserID = Some 123456, To = Some 17860, Page = None\<rparr>,
          \<lparr>UserID = Some 123456, To = Some 17860, Page = Some 2\<rparr>]"
        1 "[\<lparr>Hours = 2, SpentDate = Some 17859\<rparr>, \<lparr>Hours = 6, SpentDate = Some 17858\<rparr>]"
        example_config validated_config "\<lparr>Hours = 2, SpentDate = Some 17859\<rparr>" 17859
        groupByDay dateFormat]
  have h1: "inj (Format golib dateFormat)" by (rule golib_Format_inj)
  have h2: "SpentDate \<lparr>Hours = 2, SpentDate = Some 17859\<rparr> = Some 17859" by simp
  from inst [THEN conjunct1, THEN mp, OF example_run_1]
    inst [THEN conjunct2, THEN mp, OF conjI [OF h1 conjI [OF validate_example h2]]]
    example_run_1 h1 validate_example h2
  show ?thesis by (intro conjI)
qed

subsection \<open>C5: the backward shift ends on a workday\<close>

text \<open>
  Claim C5: for every configuration that has passed \<open>Validate\<close> (at most six weekdays
  off, finitely many excluded dates) and every date \<open>d\<close>, the loop that steps back over
  non-workdays ends, on a date \<open>d' \<le> d\<close> that is neither an off-weekday nor an excluded
  date. The excluded dates are finitely many days because \<open>Format\<close> gives different days
  different strings.
\<close>

theorem ShiftToWorkday_reaches_workday:
  assumes "inj (Format L dateFormat)" and "Validate L c = (None, c')"
  shows "\<exists>d'. ShiftToWorkday L c' d = Some d' \<and> d' \<le> d \<and> \<not> IsNonWorkday L c' d'
           \<and> \<not> Off c' d' \<and> \<not> Excluded L c' d'"
  using validated_ShiftToWorkday [OF assms, of d] by (auto simp: IsNonWorkday_def)

text \<open>Witness of C5: Saturday 2018-11-24 under the example configuration.\<close>

theorem ShiftToWorkday_reaches_workday_witness:
  "inj (Format golib dateFormat) \<and> Validate golib example_config = (None, validated_config)
   \<and> (\<exists>d'. ShiftToWorkday golib validated_config 17859 = Some d' \<and> d' \<le> 17859
          \<and> \<not> IsNonWorkday golib validated_config d'
          \<and> \<not> Off validated_config d' \<and> \<not> Excluded golib validated_config d')"
  using ShiftToWorkday_reaches_workday [OF golib_Format_inj validate_example, of 17859]
    golib_Format_inj validate_example
  by (intro conjI)

subsection \<open>C6: the backward shift is idempotent\<close>

text \<open>
  Claim C6: for every validated configuration and every date \<open>d\<close>, shifting twice is
  shifting once: the shift of \<open>d\<close> is a date that shifts to itself.
\<close>

theorem ShiftToWorkday_idempotent:
  assumes "inj (Format L dateFormat)" and "Validate L c = (None, c')"
  shows "\<exists>d'. ShiftToWorkday L c' d = Some d' \<and> ShiftToWorkday L c' d' = Some d'
           \<and> ShiftToWorkday L c' d \<bind> ShiftToWorkday L c' = ShiftToWorkday L c' d"
proof -
  obtain d' where d': "ShiftToWorkday L c' d = Some d'" "\<not> IsNonWorkday L c' d'"
    using validated_ShiftToWorkday [OF assms, of d] by blast
  from d'(2) have "ShiftToWorkday L c' d' = Some d'" by (rule ShiftToWorkday_workday)
  with d'(1) show ?thesis by simp
qed

text \<open>Witness of C6: the excluded Thursday 2018-11-01 under the example configuration.\<close>

theorem ShiftToWorkday_idempotent_witness:
  "inj (Format golib dateFormat) \<and> Validate golib example_config = (None, validated_config)
   \<and> (\<exists>d'. ShiftToWorkday golib validated_config 17836 = Some d'
          \<and> ShiftToWorkday golib validated_config d' = Some d'
          \<and> ShiftToWorkday golib validated_config 17836 \<bind> ShiftToWorkday golib validated_config
                = ShiftToWorkday golib validated_config 17836)"
  using ShiftToWorkday_idempotent [OF golib_Format_inj validate_example, of 17836]
    golib_Format_inj validate_example
  by (intro conjI)

subsection \<open>C7: when Validate fails\<close>

text \<open>
  Claim C7: \<open>Validate\<close> returns an error if and only if some listed off-weekday matches
  none of the seven names of the weekdays when both are put in lower case, or some
  excluded date does not parse under the layout \<open>2006-01-02\<close>, or every weekday is the
  match of some listed name; otherwise it returns \<open>nil\<close>. The lower-case forms of the
  seven names are taken to be different strings, as they are.
\<close>

theorem Validate_error_iff:
  assumes "distinct (map (\<lambda>w. ToLower L (String w)) weekdays)"
  shows "fst (Validate L c) \<noteq> None \<longleftrightarrow>
           (\<exists>v \<in> set (WeekdaysOff c). \<forall>wd. ToLower L v \<noteq> ToLower L (String wd))
         \<or> (\<exists>v \<in> set (ExcludedDates c). isl (Parse L dateFormat v))
         \<or> (\<forall>wd. \<exists>v \<in> set (WeekdaysOff c). ToLower L v = ToLower L (String wd))"
proof -
  obtain em e1 where ex: "excluded_loop L (ExcludedDates c) {} = (em, e1)" by fastforce
  obtain wm e2 where wk: "weekdays_loop L (WeekdaysOff c) {} = (wm, e2)" by fastforce
  have e1: "e1 \<noteq> None \<longleftrightarrow> (\<exists>v \<in> set (ExcludedDates c). isl (Parse L dateFormat v))"
    using excluded_loop_error [of L "ExcludedDates c" "{}"] ex by simp
  have e2: "e2 \<noteq> None \<longleftrightarrow>
              (\<exists>v \<in> set (WeekdaysOff c). \<forall>wd. ToLower L v \<noteq> ToLower L (String wd))"
    using weekdays_loop_error [of L "WeekdaysOff c" "{}"] wk by (simp add: wds_None)
  have wm: "6 < card wm \<longleftrightarrow>
              (\<forall>wd. \<exists>v \<in> set (WeekdaysOff c). ToLower L v = ToLower L (String wd))"
    if "e2 = None"
  proof -
    from weekdays_loop_None [OF wk [unfolded that]]
    have s: "wm = {wd. \<exists>v \<in> set (WeekdaysOff c). ToLower L v = ToLower L (String wd)}"
      by (simp add: wds_Some [OF assms])
    have "6 < card wm \<longleftrightarrow> wm = UNIV"
    proof
      assume "6 < card wm"
      moreover have "card wm \<le> card (UNIV :: weekday set)"
        by (rule card_mono) (simp_all add: finite_weekday_set)
      ultimately have "card wm = card (UNIV :: weekday set)"
        by (simp add: card_UNIV_weekday)
      then show "wm = UNIV"
        by (intro card_subset_eq) (simp_all add: finite_weekday_set)
    next
      assume "wm = UNIV" then show "6 < card wm" by (simp add: card_UNIV_weekday)
    qed
    also have "\<dots> \<longleftrightarrow> (\<forall>wd. \<exists>v \<in> set (WeekdaysOff c). ToLower L v = ToLower L (String wd))"
      unfolding s by auto
    finally show ?thesis .
  qed
  show ?thesis
  proof (cases e1)
    case (Some err)
    with ex e1 show ?thesis by (auto simp: Validate_def)
  next
    case None
    note n1 = this
    show ?thesis
    proof (cases e2)
      case (Some err)
      with ex wk n1 e1 e2 show ?thesis by (auto simp: Validate_def)
    next
      case None
      with ex wk n1 e1 e2 wm [OF None] show ?thesis
        by (auto simp: Validate_def)
    qed
  qed
qed

text \<open>
  Witness of C7: the example configuration, which passes, and the configuration that
  lists \<open>Caturday\<close>, which does not.
\<close>

theorem Validate_error_iff_witness:
  "distinct (map (\<lambda>w. ToLower golib (String w)) weekdays)
   \<and> fst (Validate golib example_config) = None
   \<and> fst (Validate golib (example_config\<lparr>WeekdaysOff := [''Caturday'']\<rparr>))
        = Some (InvalidWeekday ''Caturday'')
   \<and> (fst (Validate golib (example_config\<lparr>WeekdaysOff := [''Caturday'']\<rparr>)) \<noteq> None \<longleftrightarrow>
         (\<exists>v \<in> set (WeekdaysOff (example_config\<lparr>WeekdaysOff := [''Caturday'']\<rparr>)).
            \<forall>wd. ToLower golib v \<noteq> ToLower golib (String wd))
       \<or> (\<exists>v \<in> set (ExcludedDates (example_config\<lparr>WeekdaysOff := [''Caturday'']\<rparr>)).
            isl (Parse golib dateFormat v))
       \<or> (\<forall>wd. \<exists>v \<in> set (WeekdaysOff (example_config\<lparr>WeekdaysOff := [''Caturday'']\<rparr>)).
            ToLower golib v = ToLower golib (String wd)))"
proof -
  have a: "fst (Validate golib example_config) = None" by (simp add: validate_example)
  have b: "fst (Validate golib (example_config\<lparr>WeekdaysOff := [''Caturday'']\<rparr>))
        = Some (InvalidWeekday ''Caturday'')" by code_simp
  from example_distinct_names a b
    Validate_error_iff [OF example_distinct_names,
      of "example_config\<lparr>WeekdaysOff := [''Caturday'']\<rparr>"]
  show ?thesis by (intro conjI)
qed

subsection \<open>C8: an unknown granularity\<close>

text \<open>
  Claim C8: for every \<open>groupBy\<close> other than day, week, month and year,
  \<open>GetRecentDaysGrouped\<close> returns the error of an invalid group with the count 0 and a
  \<open>nil\<close> grouping, before any request to the remote service and before any entry is
  looked at: the list of requests is empty, whatever the session and the service are.
\<close>

theorem GetRecentDaysGrouped_invalid_group:
  assumes "groupBy \<notin> {groupByDay, groupByWeek, groupByMonth, groupByYear}"
  shows "GetRecentDaysGrouped L t amount from actualDays groupBy
           = Some ([], Returns (0, None, Some (InvalidGroup groupBy)))"
  using assms by (simp add: GetRecentDaysGrouped_def groupFormat_def)

text \<open>
  Witness of C8: the group \<open>decade\<close>, in a session without a user, where a call of
  \<open>GetRecentDays\<close> would have panicked.
\<close>

theorem GetRecentDaysGrouped_invalid_group_witness:
  "''decade'' \<notin> {groupByDay, groupByWeek, groupByMonth, groupByYear}
   \<and> GetRecentDaysGrouped golib fresh_session 5 17860 True ''decade''
        = Some ([], Returns (0, None, Some (InvalidGroup ''decade'')))"
proof -
  have h: "''decade'' \<notin> {groupByDay, groupByWeek, groupByMonth, groupByYear}"
    by (simp add: groupByDay_def groupByWeek_def groupByMonth_def groupByYear_def)
  from h GetRecentDaysGrouped_invalid_group [OF h] show ?thesis by (intro conjI)
qed

subsection \<open>C9: a session without a user\<close>



subsection \<open>C10: the project of GetAssignmentsByName\<close>

text \<open>
  Claim C10: in a call of \<open>GetAssignmentsByName\<close> with a forecast user set and a listing
  of the projects received, the identifier used for the assignments is that of the last
  project of the listing with the given name; and when that identifier is 0 the call
  returns the error that no project was found, as it does when no project has the name,
  and asks for no assignments.
\<close>

theorem GetAssignmentsByName_last_match:
  assumes "forecastUser t = Some fu" and "ForecastUserID fu \<noteq> 0"
    and "GetProjects (forecast t) = Inr ps"
    and "ms = filter (\<lambda>p. Name p = projectName) ps"
  shows "(ms \<noteq> [] \<and> ProjectID (last ms) \<noteq> 0 \<longrightarrow>
            GetAssignmentsByName t projectName
              = GetAssignments (forecast t)
                  \<lparr>ParamProjectID = Some (ProjectID (last ms)),
                   PersonID = Some (ForecastUserID fu)\<rparr>)
       \<and> (ms = [] \<or> ProjectID (last ms) = 0 \<longrightarrow>
            GetAssignmentsByName t projectName = Inl (ProjectNotFound projectName))"
proof -
  have "find_project projectName ps 0 = (if ms = [] then 0 else ProjectID (last ms))"
    using assms(4) by (simp add: find_project_last split: list.splits)
  with assms(1,2,3) show ?thesis
    by (auto simp: GetAssignmentsByName_def Let_def)
qed

text \<open>
  Witness of C10: of the two projects named \<open>website\<close> the second, 13, is looked up; the
  project \<open>intranet\<close> with the identifier 0 is not found.
\<close>

theorem GetAssignmentsByName_last_match_witness:
  "forecastUser example_session = Some \<lparr>ForecastUserID = 77\<rparr>
   \<and> ForecastUserID \<lparr>ForecastUserID = 77\<rparr> \<noteq> 0
   \<and> GetAssignmentsByName example_session ''website''
        = GetAssignments (forecast example_session)
            \<lparr>ParamProjectID = Some 13, PersonID = Some 77\<rparr>
   \<and> GetAssignmentsByName example_session ''website'' = Inr [\<lparr>AssignmentID = 1300\<rparr>]
   \<and> GetAssignmentsByName example_session ''intranet'' = Inl (ProjectNotFound ''intranet'')"
proof -
  let ?ps = "[\<lparr>ProjectID = 11, Name = ''website''\<rparr>, \<lparr>ProjectID = 12, Name = ''app''\<rparr>,
              \<lparr>ProjectID = 13, Name = ''website''\<rparr>, \<lparr>ProjectID = 0, Name = ''intranet''\<rparr>]"
  have h1: "forecastUser example_session = Some \<lparr>ForecastUserID = 77\<rparr>"
    by (simp add: example_session_def)
  have h2: "ForecastUserID \<lparr>ForecastUserID = 77\<rparr> \<noteq> 0" by simp
  have h3: "GetProjects (forecast example_session) = Inr ?ps"
    by (simp add: example_session_def example_forecast_def)
  have w: "[\<lparr>ProjectID = 11, Name = ''website''\<rparr>, \<lparr>ProjectID = 13, Name = ''website''\<rparr>]
             = filter (\<lambda>p. Name p = ''website'') ?ps" by simp
  have i: "[\<lparr>ProjectID = 0, Name = ''intranet''\<rparr>]
             = filter (\<lambda>p. Name p = ''intranet'') ?ps" by simp
  have a: "GetAssignmentsByName example_session ''website''
        = GetAssignments (forecast example_session)
            \<lparr>ParamProjectID = Some 13, PersonID = Some 77\<rparr>"
    using GetAssignmentsByName_last_match [OF h1 h2 h3 w] by simp
  have b: "GetAssignmentsByName example_session ''intranet'' = Inl (ProjectNotFound ''intranet'')"
    using GetAssignmentsByName_last_match [OF h1 h2 h3 i] by simp
  have c: "GetAssignmentsByName example_session ''website'' = Inr [\<lparr>AssignmentID = 1300\<rparr>]"
    unfolding a by (simp add: example_session_def example_forecast_def)
  from h1 h2 a c b show ?thesis by (intro conjI)
qed

end
